theory Spec2Isabelle
  imports Main "HOL-Library.Sublist"
begin

text \<open>
  A model of the on-device menu of the pwnagotchi plugin and of its deauth toggle:
  \<^item> \<open>onscreen_menu.py\<close>: the polling hook \<open>on_ui_update\<close>, the input helpers
    \<open>_btn\<close> and \<open>_edge\<close>, the dispatcher \<open>_run_action\<close> and the two paginated
    viewers \<open>_act_show_events\<close> and \<open>_act_show_networks\<close>;
  \<^item> \<open>plugins/onscreen_menu/scripts/toggle_deauth.py\<close>: \<open>main\<close> with \<open>_audit\<close> and
    \<open>_notify_agent\<close>.
  Methods keep their names without the leading underscore. State is passed explicitly;
  what the environment does (button edges, pin levels, files that cannot be written) is
  an argument of the function that meets it.
\<close>

section \<open>Python values\<close>

text \<open>
  Python's unbounded integers are \<open>int\<close>. A Python \<open>str\<close> is a \<open>string\<close> holding the
  bytes of its UTF-8 encoding, so that the literals of the source outside ASCII (the
  separator label, the row marker of the menu) and the line boundaries and white space
  outside ASCII can be written down. The exceptions the menu code can raise by itself
  are the two below; the state a method had reached when it raised is kept beside the
  exception, since the assignments made before the raise persist.
\<close>

datatype py_error = ZeroDivisionError | IndexError

text \<open>\<open>xs[i]\<close>: a negative index counts from the end, anything outside raises.\<close>

definition py_getitem :: "'a list \<Rightarrow> int \<Rightarrow> 'a option" where
  "py_getitem xs i =
     (if 0 \<le> i \<and> i < int (length xs) then Some (xs ! nat i)
      else if i < 0 \<and> - int (length xs) \<le> i then Some (xs ! nat (int (length xs) + i))
      else None)"

text \<open>
  \<open>str.splitlines()\<close>: the boundaries are \<open>\r\n\<close>, \<open>\n\<close>, \<open>\r\<close>, \<open>\v\<close>, \<open>\f\<close>,
  \<open>\x1c\<close>, \<open>\x1d\<close>, \<open>\x1e\<close>, U+0085, U+2028 and U+2029; a text that ends
  in a boundary has no empty last line. \<open>line_break s\<close> is the number of bytes of the
  boundary \<open>s\<close> starts with, 0 when it starts with none.
\<close>

definition line_break :: "string \<Rightarrow> nat" where
  "line_break s =
     (if take 2 s = [CHR 0x0D, CHR 0x0A] then 2
      else if take 1 s \<in> set [[CHR 0x0A], [CHR 0x0D], [CHR 0x0B], [CHR 0x0C],
                               [CHR 0x1C], [CHR 0x1D], [CHR 0x1E]] then 1
      else if take 2 s = [CHR 0xC2, CHR 0x85] then 2
      else if take 3 s = [CHR 0xE2, CHR 0x80, CHR 0xA8] then 3
      else if take 3 s = [CHR 0xE2, CHR 0x80, CHR 0xA9] then 3
      else 0)"

function splitlines_from :: "string \<Rightarrow> string \<Rightarrow> string list" where
  "splitlines_from cur s =
     (if s = [] then (if cur = [] then [] else [cur])
      else if line_break s = 0 then splitlines_from (cur @ [hd s]) (tl s)
      else cur # splitlines_from [] (drop (line_break s) s))"
  by pat_completeness auto
termination
  by (relation "measure (\<lambda>(cur, s). length s)") auto

declare splitlines_from.simps [simp del]

definition splitlines :: "string \<Rightarrow> string list" where
  "splitlines s = splitlines_from [] s"

text \<open>
  \<open>str.strip()\<close> removes the characters for which \<open>str.isspace\<close> holds from both ends:
  U+0009 to U+000D, U+001C to U+0020, U+0085, U+00A0, U+1680, U+2000 to U+200A, U+2028,
  U+2029, U+202F, U+205F and U+3000.
\<close>

definition py_whitespace :: "string list" where
  "py_whitespace =
     [[CHR 0x09], [CHR 0x0A], [CHR 0x0B], [CHR 0x0C], [CHR 0x0D],
      [CHR 0x1C], [CHR 0x1D], [CHR 0x1E], [CHR 0x1F], [CHR 0x20],
      [CHR 0xC2, CHR 0x85], [CHR 0xC2, CHR 0xA0], [CHR 0xE1, CHR 0x9A, CHR 0x80],
      [CHR 0xE2, CHR 0x80, CHR 0x80], [CHR 0xE2, CHR 0x80, CHR 0x81],
      [CHR 0xE2, CHR 0x80, CHR 0x82], [CHR 0xE2, CHR 0x80, CHR 0x83],
      [CHR 0xE2, CHR 0x80, CHR 0x84], [CHR 0xE2, CHR 0x80, CHR 0x85],
      [CHR 0xE2, CHR 0x80, CHR 0x86], [CHR 0xE2, CHR 0x80, CHR 0x87],
      [CHR 0xE2, CHR 0x80, CHR 0x88], [CHR 0xE2, CHR 0x80, CHR 0x89],
      [CHR 0xE2, CHR 0x80, CHR 0x8A], [CHR 0xE2, CHR 0x80, CHR 0xA8],
      [CHR 0xE2, CHR 0x80, CHR 0xA9], [CHR 0xE2, CHR 0x80, CHR 0xAF],
      [CHR 0xE2, CHR 0x81, CHR 0x9F], [CHR 0xE3, CHR 0x80, CHR 0x80]]"

text \<open>The number of bytes of the white-space character \<open>s\<close> starts with (ends with), 0
  when there is none.\<close>

definition space_before :: "string \<Rightarrow> nat" where
  "space_before s =
     (case find (\<lambda>sp. prefix sp s) py_whitespace of None \<Rightarrow> 0 | Some sp \<Rightarrow> length sp)"

definition space_after :: "string \<Rightarrow> nat" where
  "space_after s =
     (case find (\<lambda>sp. suffix sp s) py_whitespace of None \<Rightarrow> 0 | Some sp \<Rightarrow> length sp)"

function lstrip :: "string \<Rightarrow> string" where
  "lstrip s = (if s = [] \<or> space_before s = 0 then s else lstrip (drop (space_before s) s))"
  by pat_completeness auto
termination
  by (relation "measure length") auto

function rstrip :: "string \<Rightarrow> string" where
  "rstrip s =
     (if s = [] \<or> space_after s = 0 then s else rstrip (take (length s - space_after s) s))"
  by pat_completeness auto
termination
  by (relation "measure length") auto

declare lstrip.simps [simp del] rstrip.simps [simp del]

definition py_strip :: "string \<Rightarrow> string" where
  "py_strip s = rstrip (lstrip s)"

section \<open>onscreen\_menu.py: pins, menu entries, plugin state\<close>

definition PIN_UP :: nat where "PIN_UP = 6"
definition PIN_DOWN :: nat where "PIN_DOWN = 19"
definition PIN_LEFT :: nat where "PIN_LEFT = 5"
definition PIN_RIGHT :: nat where "PIN_RIGHT = 26"
definition PIN_OK :: nat where "PIN_OK = 13"
definition PIN_KEY1 :: nat where "PIN_KEY1 = 21"
definition PIN_KEY2 :: nat where "PIN_KEY2 = 20"
definition PIN_KEY3 :: nat where "PIN_KEY3 = 16"

text \<open>The bound methods that \<open>Plugin.__init__\<close> puts into \<open>menu_items\<close>.\<close>

datatype action =
    Act_status | Act_restart_service | Act_toggle_deauth | Act_reboot_pi
  | Act_shutdown_pi | Act_show_events | Act_show_networks | Act_upload_logs
  | Act_pisugar_status

text \<open>
  An image shown on the display is the list of text rows painted on it, top to bottom.

  The record holds the attributes of \<open>self\<close> that the menu code reads or writes
  (\<open>ready\<close>, \<open>menu_open\<close>, \<open>menu_items\<close>, \<open>menu_index\<close>; \<open>ui\<close> says whether
  \<open>self.ui\<close> has been set) and the two runtime objects its effects land on: \<open>display\<close>
  is the sequence of images handed to \<open>display_image\<close> of the host's display surface
  so far (the surface passed to \<open>on_ui_update\<close> and the one stored in \<open>self.ui\<close> are
  the host's one view), \<open>threads\<close> the daemon threads that
  \<open>threading.Thread(target=self._run_action, args=(label, fn)).start()\<close> has started
  and that have not finished, oldest first. \<open>self.font\<close> and \<open>self.rclone_remote\<close>
  play no part in the menu logic and are left out; \<open>with self._lock\<close> is an
  uncontended acquire and release around the assignment it guards.
\<close>

type_synonym image = "string list"

record plugin =
  ready :: bool
  menu_open :: bool
  menu_items :: "(string \<times> action option) list"
  menu_index :: int
  ui :: bool
  display :: "image list"
  threads :: "(string \<times> action) list"

definition init :: plugin where
  "init =
     \<lparr> ready = False,
       menu_open = False,
       menu_items =
         [(''Status'', Some Act_status),
          (''Restart pwnagotchi'', Some Act_restart_service),
          (''Toggle deauth'', Some Act_toggle_deauth),
          (''Reboot device'', Some Act_reboot_pi),
          (''Shutdown device'', Some Act_shutdown_pi),
          ([CHR 0xE2, CHR 0x80, CHR 0x94], None),
          (''View events (40)'', Some Act_show_events),
          (''Saved nets (10)'', Some Act_show_networks),
          (''Upload logs'', Some Act_upload_logs),
          (''PiSugar: battery'', Some Act_pisugar_status)],
       menu_index = 0,
       ui = False,
       display = [],
       threads = [] \<rparr>"

definition on_loaded :: "plugin \<Rightarrow> plugin" where
  "on_loaded w = w\<lparr>ready := True\<rparr>"

definition on_ui_setup :: "plugin \<Rightarrow> plugin" where
  "on_ui_setup w = w\<lparr>ui := True\<rparr>"

subsection \<open>Drawing\<close>

text \<open>
  \<open>_draw_menu\<close>: the title, one row per entry with the marker before the selected one,
  and the hint. \<open>_draw_msg\<close>: the given lines. Colours and pixel positions are left
  out, and the display surface is taken not to fail.
\<close>

fun menu_rows :: "int \<Rightarrow> int \<Rightarrow> (string \<times> action option) list \<Rightarrow> string list" where
  "menu_rows sel i [] = []"
| "menu_rows sel i ((label, _) # rest) =
     ((if i = sel then [CHR 0xE2, CHR 0x9E, CHR 0xA4, CHR '' ''] else ''  '') @ label)
       # menu_rows sel (i + 1) rest"

definition draw_menu :: "plugin \<Rightarrow> plugin" where
  "draw_menu w =
     w\<lparr>display := display w @
         [[''Pwnagotchi Menu''] @ menu_rows (menu_index w) 0 (menu_items w) @
          [''UP/DN nav  RIGHT/KEY1 ok  LEFT/KEY2 back  KEY3 menu'']]\<rparr>"

definition draw_msg :: "string list \<Rightarrow> plugin \<Rightarrow> plugin" where
  "draw_msg lines w = w\<lparr>display := display w @ [lines]\<rparr>"

subsection \<open>The polling hook\<close>

text \<open>
  One call of \<open>on_ui_update\<close> asks \<open>self._edge(pin)\<close> at most once for each pin. Its
  answers in that tick are the argument \<open>e\<close>: \<open>e pin\<close> is what \<open>self._edge(pin)\<close>
  returns if the call is reached. The result is \<open>Inr\<close> the state at the return, or
  \<open>Inl\<close> the exception with the state at the raise.
\<close>

type_synonym edges = "nat \<Rightarrow> bool"

definition on_ui_update :: "plugin \<Rightarrow> edges \<Rightarrow> (py_error \<times> plugin) + plugin" where
  "on_ui_update w e =
     (if \<not> ready w then Inr w
      else
        let w1 = (if e PIN_KEY3 then w\<lparr>menu_open := \<not> menu_open w\<rparr> else w) in
        if \<not> menu_open w1 then Inr w1
        else if e PIN_UP then
          (if length (menu_items w1) = 0 then Inl (ZeroDivisionError, w1)
           else Inr (draw_menu
                  (w1\<lparr>menu_index := (menu_index w1 - 1) mod int (length (menu_items w1))\<rparr>)))
        else if e PIN_DOWN then
          (if length (menu_items w1) = 0 then Inl (ZeroDivisionError, w1)
           else Inr (draw_menu
                  (w1\<lparr>menu_index := (menu_index w1 + 1) mod int (length (menu_items w1))\<rparr>)))
        else if e PIN_LEFT \<or> e PIN_KEY2 then Inr (w1\<lparr>menu_open := False\<rparr>)
        else if e PIN_RIGHT \<or> e PIN_KEY1 then
          (case py_getitem (menu_items w1) (menu_index w1) of
             None \<Rightarrow> Inl (IndexError, w1)
           | Some (label, fn) \<Rightarrow>
               (case fn of
                  None \<Rightarrow> Inr (draw_menu w1)
                | Some f \<Rightarrow> Inr (draw_menu (w1\<lparr>threads := threads w1 @ [(label, f)]\<rparr>))))
        else Inr (draw_menu w1))"

text \<open>The host calls the hook once per tick; \<open>run_ticks\<close> is a run of such calls,
  stopped by the first exception.\<close>

fun run_ticks :: "plugin \<Rightarrow> edges list \<Rightarrow> (py_error \<times> plugin) + plugin" where
  "run_ticks w [] = Inr w"
| "run_ticks w (e # es) =
     (case on_ui_update w e of Inl x \<Rightarrow> Inl x | Inr w' \<Rightarrow> run_ticks w' es)"

text \<open>\<open>press ps\<close>: the tick in which exactly the pins \<open>ps\<close> give an edge.\<close>

definition press :: "nat list \<Rightarrow> edges" where
  "press ps = (\<lambda>p. p \<in> set ps)"

subsection \<open>Input helpers\<close>

text \<open>
  The handlers of the source are all \<open>except Exception\<close>: they catch the instances of
  \<open>Exception\<close> and let through what derives from \<open>BaseException\<close> only, which is
  \<open>SystemExit\<close>, \<open>KeyboardInterrupt\<close> and \<open>GeneratorExit\<close>. A raised exception is
  kept as its class, \<open>Exception\<close> standing for itself and all its subclasses, and its
  \<open>str\<close>.
\<close>

datatype exc_class = Exception | SystemExit | KeyboardInterrupt | GeneratorExit

type_synonym raised = "exc_class \<times> string"

text \<open>
  One tick of a pin: the level the button puts on it, and what \<open>GPIO.input(pin)\<close>
  does when it is called at that tick, which is to return that level (\<open>None\<close>) or to
  raise. \<open>_btn\<close> returns a \<open>bool\<close> from both branches of its \<open>try\<close>; an exception that
  the handler does not catch leaves it (\<open>Inl\<close>).
\<close>

datatype gpio_level = LOW | HIGH

type_synonym sample = "gpio_level \<times> raised option"

definition btn :: "sample \<Rightarrow> raised + bool" where
  "btn s =
     (case snd s of
        None \<Rightarrow> Inr (fst s = LOW)
      | Some exc \<Rightarrow> if fst exc = Exception then Inr False else Inl exc)"

text \<open>
  \<open>_edge\<close> on one pin. Time is counted in ticks of 0.01 s, the sleep of the release
  loop; \<open>sig ! t\<close> is the pin at tick \<open>t\<close>, and a read takes no time.
  \<open>DEBOUNCE_S = 0.15\<close> is 15 ticks. \<open>sig\<close> is a finite observation of the pin:
  \<open>None\<close> says that the call has not returned when the observation ends. Otherwise
  the result is the value returned (\<open>Inr\<close>) or the exception that left the call
  (\<open>Inl\<close>), and the tick at which it did.
\<close>

definition DEBOUNCE_TICKS :: nat where
  "DEBOUNCE_TICKS = 15"

function wait_release :: "sample list \<Rightarrow> nat \<Rightarrow> ((raised + bool) \<times> nat) option" where
  "wait_release sig t =
     (if length sig \<le> t then None
      else if btn (sig ! t) = Inr True then wait_release sig (Suc t)
      else case btn (sig ! t) of
             Inl exc \<Rightarrow> Some (Inl exc, t)
           | Inr b \<Rightarrow> Some (Inr True, t))"
  by pat_completeness auto
termination
  by (relation "measure (\<lambda>(sig, t). length sig - t)") auto

declare wait_release.simps [simp del]

definition edge :: "sample list \<Rightarrow> nat \<Rightarrow> ((raised + bool) \<times> nat) option" where
  "edge sig t =
     (if length sig \<le> t then None
      else case btn (sig ! t) of
             Inl exc \<Rightarrow> Some (Inl exc, t)
           | Inr b \<Rightarrow> if b then wait_release sig (t + DEBOUNCE_TICKS)
                     else Some (Inr False, t))"

text \<open>
  The host polls the pin again and again: \<open>polls sig t gaps\<close> are the values returned by
  the calls of \<open>_edge\<close> when the host lets \<open>gap\<close> ticks pass before each call, from
  tick \<open>t\<close> on. An exception that leaves a call ends the polling.
\<close>

fun polls :: "sample list \<Rightarrow> nat \<Rightarrow> nat list \<Rightarrow> (raised + bool list) option" where
  "polls sig t [] = Some (Inr [])"
| "polls sig t (gap # gaps) =
     (case edge sig (t + gap) of
        None \<Rightarrow> None
      | Some (Inl exc, t') \<Rightarrow> Some (Inl exc)
      | Some (Inr b, t') \<Rightarrow> map_option (map_sum id ((#) b)) (polls sig t' gaps))"

text \<open>
  In the words of the specification: a physical press-and-release cycle is a run of
  ticks at which the button holds the pin \<open>LOW\<close>, ended by a tick at which it does not.
  \<open>press_cycles held sig\<close> counts the cycles completed in \<open>sig\<close>, \<open>held\<close> saying
  whether the button was down just before. Whether a read of the pin fails does not
  enter.
\<close>

fun press_cycles :: "bool \<Rightarrow> sample list \<Rightarrow> nat" where
  "press_cycles held [] = 0"
| "press_cycles held (s # ss) =
     (if held \<and> fst s \<noteq> LOW then 1 else 0) + press_cycles (fst s = LOW) ss"

subsection \<open>Actions\<close>

text \<open>
  The loops that wait for a button poll \<open>_edge\<close> once per pin and round. The polls a
  thread makes are given as a finite history, one \<open>edges\<close> per round of its current
  loop. What a method has done by the end of the history is a \<open>progress\<close>:
  \<open>Waiting w\<close> when it is still in a wait loop, in state \<open>w\<close>; \<open>Returned v w es\<close>
  when it has returned \<open>v\<close>, leaving the rest \<open>es\<close> of the history unread;
  \<open>Raised cls msg w es\<close> when an exception of class \<open>cls\<close> whose \<open>str\<close> is \<open>msg\<close>
  has left it.
\<close>

datatype 'a progress =
    Waiting plugin
  | Returned 'a plugin "edges list"
  | Raised exc_class string plugin "edges list"

fun state_of :: "'a progress \<Rightarrow> plugin" where
  "state_of (Waiting w) = w"
| "state_of (Returned v w es) = w"
| "state_of (Raised cls msg w es) = w"

text \<open>The wait of \<open>_run_action\<close>: any of the four confirm and back pins ends it.\<close>

fun modal_wait :: "edges list \<Rightarrow> edges list option" where
  "modal_wait [] = None"
| "modal_wait (e # es) =
     (if e PIN_RIGHT \<or> e PIN_KEY1 \<or> e PIN_LEFT \<or> e PIN_KEY2 then Some es
      else modal_wait es)"

text \<open>
  \<open>_run_action(label, fn)\<close>. The action body \<open>fn\<close> is any function of the state and the
  poll history; it returns \<open>None\<close> or a \<open>str\<close>, or raises. The handler of
  \<open>_run_action\<close> is \<open>except Exception\<close>: an exception of another class leaves
  \<open>_run_action\<close> as it came, and nothing more is drawn. The display surface is taken
  not to fail.
\<close>

type_synonym body = "plugin \<Rightarrow> edges list \<Rightarrow> string option progress"

definition run_action :: "string \<Rightarrow> body \<Rightarrow> plugin \<Rightarrow> edges list \<Rightarrow> unit progress" where
  "run_action label fn w es =
     (if \<not> ui w then Returned () w es
      else
        case fn (draw_msg [label @ ''...''] w) es of
          Waiting w1 \<Rightarrow> Waiting w1
        | Returned out w1 es1 \<Rightarrow>
            (let out' = (case out of None \<Rightarrow> ''Done.''
                         | Some s \<Rightarrow> if s = [] then ''Done.'' else s);
                 lines = [label @ '':''] @ take 8 (splitlines out') @
                         ['''', ''RIGHT/KEY1=OK  LEFT/KEY2=Back''];
                 w2 = draw_msg lines w1
             in case modal_wait es1 of
                  None \<Rightarrow> Waiting w2
                | Some es2 \<Rightarrow> Returned () w2 es2)
        | Raised cls msg w1 es1 \<Rightarrow>
            if cls = Exception then
              (let w2 = draw_msg [label, '''', ''Error: '' @ msg, '''',
                                  ''RIGHT/KEY1=OK  LEFT/KEY2=Back''] w1
               in case modal_wait es1 of
                    None \<Rightarrow> Waiting w2
                  | Some es2 \<Rightarrow> Returned () w2 es2)
            else Raised cls msg w1 es1)"

subsection \<open>The paginated viewers\<close>

text \<open>The wait under a page: \<open>True\<close> for next (RIGHT or KEY1, asked first), \<open>False\<close> for
  back (LEFT or KEY2).\<close>

fun wait_page :: "edges list \<Rightarrow> (bool \<times> edges list) option" where
  "wait_page [] = None"
| "wait_page (e # es) =
     (if e PIN_RIGHT \<or> e PIN_KEY1 then Some (True, es)
      else if e PIN_LEFT \<or> e PIN_KEY2 then Some (False, es)
      else wait_page es)"

text \<open>\<open>range(0, n, step)\<close> and \<open>[last[i:i+6] for i in range(0, len(last), 6)]\<close>.\<close>

definition range_step :: "nat \<Rightarrow> nat \<Rightarrow> nat list" where
  "range_step n step = map (\<lambda>k. k * step) [0 ..< (n + step - 1) div step]"

definition chunks :: "string list \<Rightarrow> string list list" where
  "chunks last' = map (\<lambda>i. take 6 (drop i last')) (range_step (length last') 6)"

fun events_pages :: "string list list \<Rightarrow> plugin \<Rightarrow> edges list \<Rightarrow> string option progress" where
  "events_pages [] w es = Returned (Some ''End of events.'') w es"
| "events_pages (chunk # rest) w es =
     (let w1 = draw_msg (chunk @ ['''', ''RIGHT/KEY1=next  LEFT/KEY2=back'']) w
      in case wait_page es of
           None \<Rightarrow> Waiting w1
         | Some (go_on, es1) \<Rightarrow>
             if go_on then events_pages rest w1 es1 else Returned (Some '''') w1 es1)"

text \<open>
  \<open>_act_show_events\<close>. \<open>raw\<close> is what \<open>self._journal_tail(300)\<close> returned, and
  \<open>patterns_search line\<close> says whether the compiled regular expression finds a match in
  the line; the regular-expression engine is not modelled.
\<close>

definition event_lines :: "(string \<Rightarrow> bool) \<Rightarrow> string \<Rightarrow> string list" where
  "event_lines patterns_search raw =
     (let keep = map py_strip (filter patterns_search (splitlines raw));
          lines = (if keep \<noteq> [] then keep
                   else filter (\<lambda>l. l \<noteq> []) (map py_strip (splitlines raw)))
      in if length lines > 40 then drop (length lines - 40) lines else lines)"

definition act_show_events :: "(string \<Rightarrow> bool) \<Rightarrow> string \<Rightarrow> body" where
  "act_show_events patterns_search raw w es =
     (if py_strip raw = [] then Returned (Some ''No logs found.'') w es
      else events_pages (chunks (event_lines patterns_search raw)) w es)"

text \<open>
  \<open>_act_show_networks\<close>, from the list \<open>found\<close> that the scan of the files, the handshake
  directories and the journal has gathered.
\<close>

definition newest_networks :: "string list \<Rightarrow> string list" where
  "newest_networks found =
     take 10 (rev (fold (\<lambda>s seen. if s \<noteq> [] \<and> s \<notin> set seen then seen @ [s] else seen)
                        (rev found) []))"

fun networks_pages :: "string list \<Rightarrow> plugin \<Rightarrow> edges list \<Rightarrow> string option progress" where
  "networks_pages [] w es = Returned (Some ''End of networks.'') w es"
| "networks_pages (ssid # rest) w es =
     (let w1 = draw_msg [''SSID: '' @ ssid, '''', ''RIGHT/KEY1=next  LEFT/KEY2=back''] w
      in case wait_page es of
           None \<Rightarrow> Waiting w1
         | Some (go_on, es1) \<Rightarrow>
             if go_on then networks_pages rest w1 es1 else Returned (Some '''') w1 es1)"

definition act_show_networks :: "string list \<Rightarrow> body" where
  "act_show_networks found w es =
     (let newest = newest_networks found
      in if newest = [] then Returned (Some ''No secured networks found.'') w es
         else networks_pages newest w es)"

section \<open>scripts/toggle\_deauth.py\<close>

text \<open>
  The files the script touches. The flag file and the token file are absent (\<open>None\<close>)
  or hold a text; the allow file is there or not. The audit log is kept as the pieces
  that the runs have appended to it, in order: the file is their concatenation. A
  piece is the line that \<open>json.dumps(entry) + "\n"\<close> wrote, kept as its entry, or
  what is left of such a line when the write failed part-way. \<open>posted\<close> are the
  payloads handed to \<open>curl\<close> for the agent, \<open>stdout\<close> what was printed.
\<close>

record audit_entry =
  entry_ts :: string
  entry_action :: string
  entry_method :: string
  agent_notify :: bool

record payload =
  payload_action :: string
  payload_token :: string
  payload_ts :: string

datatype log_piece = Entry audit_entry | Fragment

record device =
  deauth_flag :: "string option"
  deauth_allow :: bool
  deauth_token :: "string option"
  deauth_log :: "log_piece list"
  posted :: "payload list"
  stdout :: "string list"

text \<open>
  What the system does to one run of the script; nothing of it is carried over to the
  next run.

  \<^item> \<open>flag_read_ok\<close>: \<open>open(DEAUTH_FLAG).read()\<close> on an existing flag file returns its
    text; otherwise it raises (no permission, text that does not decode).
  \<^item> \<open>flag_write\<close>: the outcome of \<open>makedirs\<close>, \<open>open(DEAUTH_FLAG, "w")\<close> and
    \<open>write\<close>. \<open>Written\<close>: the file holds the new mark. \<open>Refused\<close>: \<open>makedirs\<close> or
    \<open>open\<close> raises, and the file is as it was. \<open>Truncated\<close>: \<open>open\<close> succeeds, which
    creates the file or empties it, and the mark does not reach it.
  \<^item> \<open>token_read_ok\<close>: the same as \<open>flag_read_ok\<close>, for the token file.
  \<^item> \<open>curl_starts\<close>: \<open>subprocess.Popen\<close> can start \<open>curl\<close>.
  \<^item> \<open>log_append\<close>: the outcome of \<open>makedirs\<close>, \<open>open(DEAUTH_LOG, "a")\<close> and
    \<open>write\<close>. \<open>Appended\<close>: the line is in the file. \<open>Not_opened\<close>: \<open>makedirs\<close> or
    \<open>open\<close> raises. \<open>Torn\<close>: the write fails after \<open>open\<close>, and a part of the line
    is left at the end of the file.
  \<^item> \<open>utcnow_iso\<close>, \<open>time_time\<close>: \<open>datetime.utcnow().isoformat()\<close>, and
    \<open>time.time()\<close> as \<open>json.dumps\<close> writes it.

  The exceptions of the file system are instances of \<open>Exception\<close> (\<open>OSError\<close>,
  \<open>UnicodeDecodeError\<close>), which the handlers of the script catch.
\<close>

datatype write_outcome = Written | Refused | Truncated

datatype append_outcome = Appended | Not_opened | Torn

record run_env =
  flag_read_ok :: bool
  flag_write :: write_outcome
  token_read_ok :: bool
  curl_starts :: bool
  log_append :: append_outcome
  utcnow_iso :: string
  time_time :: string

definition audit :: "run_env \<Rightarrow> audit_entry \<Rightarrow> device \<Rightarrow> device" where
  "audit env entry d =
     (case log_append env of
        Appended \<Rightarrow> d\<lparr>deauth_log := deauth_log d @ [Entry entry]\<rparr>
      | Not_opened \<Rightarrow> d
      | Torn \<Rightarrow> d\<lparr>deauth_log := deauth_log d @ [Fragment]\<rparr>)"

definition notify_agent :: "run_env \<Rightarrow> string \<Rightarrow> device \<Rightarrow> bool \<times> device" where
  "notify_agent env act d =
     (case deauth_token d of
        None \<Rightarrow> (False, d)
      | Some t \<Rightarrow>
          if token_read_ok env \<and> curl_starts env then
            (True, d\<lparr>posted := posted d @
                      [\<lparr>payload_action = act, payload_token = py_strip t,
                        payload_ts = time_time env\<rparr>]\<rparr>)
          else (False, d))"

text \<open>The flag as \<open>main\<close> reads it into \<open>current\<close> in a run.\<close>

definition read_flag :: "run_env \<Rightarrow> device \<Rightarrow> bool" where
  "read_flag env d =
     (case deauth_flag d of
        None \<Rightarrow> False
      | Some v \<Rightarrow> flag_read_ok env \<and> py_strip v = ''1'')"

text \<open>The persisted flag: what a run whose read succeeds finds.\<close>

definition armed :: "device \<Rightarrow> bool" where
  "armed d = (case deauth_flag d of None \<Rightarrow> False | Some v \<Rightarrow> py_strip v = ''1'')"

text \<open>The second \<open>try\<close> block of \<open>main\<close>.\<close>

definition write_flag :: "run_env \<Rightarrow> bool \<Rightarrow> device \<Rightarrow> device" where
  "write_flag env new d =
     (case flag_write env of
        Written \<Rightarrow> d\<lparr>deauth_flag := Some (if new then ''1'' else ''0'')\<rparr>
      | Refused \<Rightarrow> d
      | Truncated \<Rightarrow> d\<lparr>deauth_flag := Some ''''\<rparr>)"

definition main :: "run_env \<Rightarrow> device \<Rightarrow> device" where
  "main env d =
     (let current = read_flag env d;
          new = \<not> current;
          d1 = write_flag env new d;
          act = (if new then ''arm'' else ''disarm'');
          (ok, d2) = (if deauth_allow d1 then notify_agent env act d1 else (False, d1));
          entry = \<lparr>entry_ts = utcnow_iso env @ ''Z'', entry_action = act,
                   entry_method = ''script'', agent_notify = ok\<rparr>;
          d3 = audit env entry d2
      in d3\<lparr>stdout := stdout d3 @ [''Deauth: '' @ (if new then ''ARMED'' else ''DISARMED'')]\<rparr>)"

section \<open>Example runs\<close>

text \<open>
  A session used below: the plugin is loaded, the display is set up and the menu is open
  on its first entry (\<open>example_open\<close>). A select edge starts the thread of that entry
  (\<open>example_dispatched\<close>); its body returns one line (\<open>example_body\<close>), so that the
  thread draws the result and sits in its modal wait (\<open>example_waiting\<close>).
\<close>

definition example_open :: plugin where
  "example_open = (on_ui_setup (on_loaded init))\<lparr>menu_open := True\<rparr>"

definition example_dispatched :: plugin where
  "example_dispatched = draw_menu (example_open\<lparr>threads := [(''Status'', Act_status)]\<rparr>)"

definition example_body :: body where
  "example_body = (\<lambda>w es. Returned (Some ''svc: active'') w es)"

definition example_waiting :: plugin where
  "example_waiting =
     draw_msg [''Status:'', ''svc: active'', '''', ''RIGHT/KEY1=OK  LEFT/KEY2=Back'']
       (draw_msg [''Status...''] example_dispatched)"

text \<open>
  A device on which nothing has been toggled yet: no flag file, no allow file, a token
  file, an empty audit log. In \<open>example_env\<close> every read and every write of a run
  succeeds.
\<close>

definition example_device :: device where
  "example_device =
     \<lparr> deauth_flag = None, deauth_allow = False, deauth_token = Some ''s3cret'',
       deauth_log = [], posted = [], stdout = [] \<rparr>"

definition example_env :: run_env where
  "example_env =
     \<lparr> flag_read_ok = True, flag_write = Written, token_read_ok = True,
       curl_starts = True, log_append = Appended,
       utcnow_iso = ''2025-01-01T00:00:00'', time_time = ''1735689600.0'' \<rparr>"

text \<open>A journal of 22 lines, each of which the pattern matches.\<close>

definition example_events :: "string list" where
  "example_events =
     [''e01 INFO'', ''e02 INFO'', ''e03 INFO'', ''e04 INFO'', ''e05 INFO'', ''e06 INFO'',
      ''e07 INFO'', ''e08 INFO'', ''e09 INFO'', ''e10 INFO'', ''e11 INFO'', ''e12 INFO'',
      ''e13 INFO'', ''e14 INFO'', ''e15 INFO'', ''e16 INFO'', ''e17 INFO'', ''e18 INFO'',
      ''e19 INFO'', ''e20 INFO'', ''e21 INFO'', ''e22 INFO'']"

definition example_journal :: string where
  "example_journal = concat (map (\<lambda>l. l @ [CHR 0x0A]) example_events)"

text \<open>
  Three observations of a pin; no read fails in the first two. In \<open>example_presses\<close>
  the button is down from tick 3 to tick 22 and again from tick 33 to tick 52. In
  \<open>example_short_press\<close> it is down for a tenth of a second, from tick 5 to tick 14.
  In \<open>example_failed_read\<close> it is down from tick 3 to tick 42, and the read at tick 25
  raises an \<open>OSError\<close>.
\<close>

definition example_presses :: "sample list" where
  "example_presses =
     replicate 3 (HIGH, None) @ replicate 20 (LOW, None) @ replicate 10 (HIGH, None) @
     replicate 20 (LOW, None) @ replicate 10 (HIGH, None)"

definition example_short_press :: "sample list" where
  "example_short_press =
     replicate 5 (HIGH, None) @ replicate 10 (LOW, None) @ replicate 40 (HIGH, None)"

definition example_failed_read :: "sample list" where
  "example_failed_read =
     replicate 3 (HIGH, None) @ replicate 22 (LOW, None) @
     [(LOW, Some (Exception, ''read failed''))] @
     replicate 17 (LOW, None) @ replicate 10 (HIGH, None)"

section \<open>Properties of the polling hook\<close>

lemmas pin_defs =
  PIN_UP_def PIN_DOWN_def PIN_LEFT_def PIN_RIGHT_def PIN_OK_def
  PIN_KEY1_def PIN_KEY2_def PIN_KEY3_def

lemma draw_menu_fields [simp]:
  "ready (draw_menu w) = ready w"
  "menu_open (draw_menu w) = menu_open w"
  "menu_items (draw_menu w) = menu_items w"
  "menu_index (draw_menu w) = menu_index w"
  "ui (draw_menu w) = ui w"
  "threads (draw_menu w) = threads w"
  by (simp_all add: draw_menu_def)

lemma up_step:
  assumes "ready w" and "menu_open w" and "\<not> e PIN_KEY3" and "e PIN_UP"
    and "menu_items w \<noteq> []"
  shows "on_ui_update w e =
         Inr (draw_menu (w\<lparr>menu_index := (menu_index w - 1) mod int (length (menu_items w))\<rparr>))"
  using assms by (simp add: on_ui_update_def)

lemma down_step:
  assumes "ready w" and "menu_open w" and "\<not> e PIN_KEY3" and "\<not> e PIN_UP" and "e PIN_DOWN"
    and "menu_items w \<noteq> []"
  shows "on_ui_update w e =
         Inr (draw_menu (w\<lparr>menu_index := (menu_index w + 1) mod int (length (menu_items w))\<rparr>))"
  using assms by (simp add: on_ui_update_def)

text \<open>A run of \<open>k\<close> down steps adds \<open>k\<close> to the index, modulo the number of entries.\<close>

lemma run_down_steps:
  assumes "ready w" and "menu_open w" and "menu_items w \<noteq> []"
    and "\<not> e PIN_KEY3" and "\<not> e PIN_UP" and "e PIN_DOWN"
    and "0 \<le> menu_index w" and "menu_index w < int (length (menu_items w))"
  shows "\<exists>w'. run_ticks w (replicate k e) = Inr w' \<and> ready w' \<and> menu_open w' \<and>
           menu_items w' = menu_items w \<and> ui w' = ui w \<and> threads w' = threads w \<and>
           menu_index w' = (menu_index w + int k) mod int (length (menu_items w))"
  using assms
proof (induction k arbitrary: w)
  case 0
  then show ?case by simp
next
  case (Suc k)
  let ?n = "int (length (menu_items w))"
  let ?w1 = "draw_menu (w\<lparr>menu_index := (menu_index w + 1) mod ?n\<rparr>)"
  have n: "0 < ?n"
    using Suc.prems(3) by simp
  have step: "on_ui_update w e = Inr ?w1"
    using Suc.prems by (intro down_step)
  have "\<exists>w'. run_ticks ?w1 (replicate k e) = Inr w' \<and> ready w' \<and> menu_open w' \<and>
           menu_items w' = menu_items ?w1 \<and> ui w' = ui ?w1 \<and> threads w' = threads ?w1 \<and>
           menu_index w' = (menu_index ?w1 + int k) mod int (length (menu_items ?w1))"
    using Suc.prems n by (intro Suc.IH) simp_all
  then obtain w' where w': "run_ticks ?w1 (replicate k e) = Inr w'" "ready w'" "menu_open w'"
      "menu_items w' = menu_items w" "ui w' = ui w" "threads w' = threads w"
      "menu_index w' = ((menu_index w + 1) mod ?n + int k) mod ?n"
    by auto
  have "menu_index w' = (menu_index w + int (Suc k)) mod ?n"
    using w'(7) by (simp add: mod_simps algebra_simps)
  with w' step show ?case
    by simp
qed

text \<open>
  C5. In a menu of \<open>N \<ge> 1\<close> entries with the index in \<open>[0, N)\<close>, a tick that moves up
  sets the index to \<open>(index - 1) mod N\<close>, a tick that moves down to \<open>(index + 1) mod N\<close>,
  both in \<open>[0, N)\<close>, and \<open>N\<close> ticks that move down bring the index back to where it was.
\<close>

theorem navigation_wraps:
  assumes "ready w" and "menu_open w"
    and "1 \<le> length (menu_items w)"
    and "0 \<le> menu_index w" and "menu_index w < int (length (menu_items w))"
    and "\<not> up PIN_KEY3" and "up PIN_UP"
    and "\<not> dn PIN_KEY3" and "\<not> dn PIN_UP" and "dn PIN_DOWN"
  shows "(\<exists>w'. on_ui_update w up = Inr w' \<and>
               menu_index w' = (menu_index w - 1) mod int (length (menu_items w)) \<and>
               0 \<le> menu_index w' \<and> menu_index w' < int (length (menu_items w))) \<and>
         (\<exists>w'. on_ui_update w dn = Inr w' \<and>
               menu_index w' = (menu_index w + 1) mod int (length (menu_items w)) \<and>
               0 \<le> menu_index w' \<and> menu_index w' < int (length (menu_items w))) \<and>
         (\<exists>w'. run_ticks w (replicate (length (menu_items w)) dn) = Inr w' \<and>
               menu_index w' = menu_index w \<and> menu_open w')"
proof -
  let ?n = "int (length (menu_items w))"
  have ne: "menu_items w \<noteq> []" and n: "0 < ?n"
    using assms(3) by auto
  have "on_ui_update w up = Inr (draw_menu (w\<lparr>menu_index := (menu_index w - 1) mod ?n\<rparr>))"
    using assms ne by (intro up_step)
  moreover have "on_ui_update w dn = Inr (draw_menu (w\<lparr>menu_index := (menu_index w + 1) mod ?n\<rparr>))"
    using assms ne by (intro down_step)
  moreover have "\<exists>w'. run_ticks w (replicate (length (menu_items w)) dn) = Inr w' \<and>
                      menu_index w' = menu_index w \<and> menu_open w'"
  proof -
    obtain w' where w': "run_ticks w (replicate (length (menu_items w)) dn) = Inr w'"
        "menu_open w'" "menu_index w' = (menu_index w + ?n) mod ?n"
      using run_down_steps [OF assms(1,2) ne assms(8,9,10,4,5), of "length (menu_items w)"]
      by auto
    have "(menu_index w + ?n) mod ?n = menu_index w"
      using assms(4,5) by simp
    with w' show ?thesis by auto
  qed
  ultimately show ?thesis
    using n by simp
qed

theorem navigation_wraps_witness:
  "ready (on_loaded init\<lparr>menu_open := True, menu_index := 7\<rparr>) \<and>
   length (menu_items (on_loaded init\<lparr>menu_open := True, menu_index := 7\<rparr>)) = 10 \<and>
   (\<exists>w'. on_ui_update (on_loaded init\<lparr>menu_open := True, menu_index := 7\<rparr>) (press [PIN_UP]) = Inr w' \<and>
         menu_index w' = 6) \<and>
   (\<exists>w'. on_ui_update (on_loaded init\<lparr>menu_open := True, menu_index := 7\<rparr>) (press [PIN_DOWN]) = Inr w' \<and>
         menu_index w' = 8) \<and>
   (\<exists>w'. run_ticks (on_loaded init\<lparr>menu_open := True, menu_index := 7\<rparr>)
           (replicate 10 (press [PIN_DOWN])) = Inr w' \<and> menu_index w' = 7 \<and> menu_open w')"
proof -
  let ?w = "on_loaded init\<lparr>menu_open := True, menu_index := 7\<rparr>"
  have h: "ready ?w" "menu_open ?w" "1 \<le> length (menu_items ?w)"
      "0 \<le> menu_index ?w" "menu_index ?w < int (length (menu_items ?w))"
    by (simp_all add: on_loaded_def init_def)
  have e: "\<not> press [PIN_UP] PIN_KEY3" "press [PIN_UP] PIN_UP"
      "\<not> press [PIN_DOWN] PIN_KEY3" "\<not> press [PIN_DOWN] PIN_UP" "press [PIN_DOWN] PIN_DOWN"
    by (simp_all add: press_def pin_defs)
  have vals: "menu_index ?w = 7" "length (menu_items ?w) = 10"
    by (simp_all add: on_loaded_def init_def)
  have arith: "(7 - 1) mod 10 = (6::int)" "(7 + 1) mod 10 = (8::int)"
    by simp_all
  show ?thesis
    using navigation_wraps [OF h e] h(1)
    unfolding vals by (simp only: arith of_nat_numeral) blast
qed

lemma on_ui_update_open:
  assumes "ready w" and "menu_open w" and "\<not> e PIN_KEY3"
  shows "on_ui_update w e =
     (if e PIN_UP then
        (if length (menu_items w) = 0 then Inl (ZeroDivisionError, w)
         else Inr (draw_menu (w\<lparr>menu_index := (menu_index w - 1) mod int (length (menu_items w))\<rparr>)))
      else if e PIN_DOWN then
        (if length (menu_items w) = 0 then Inl (ZeroDivisionError, w)
         else Inr (draw_menu (w\<lparr>menu_index := (menu_index w + 1) mod int (length (menu_items w))\<rparr>)))
      else if e PIN_LEFT \<or> e PIN_KEY2 then Inr (w\<lparr>menu_open := False\<rparr>)
      else if e PIN_RIGHT \<or> e PIN_KEY1 then
        (case py_getitem (menu_items w) (menu_index w) of
           None \<Rightarrow> Inl (IndexError, w)
         | Some (label, fn) \<Rightarrow>
             (case fn of
                None \<Rightarrow> Inr (draw_menu w)
              | Some f \<Rightarrow> Inr (draw_menu (w\<lparr>threads := threads w @ [(label, f)]\<rparr>))))
      else Inr (draw_menu w))"
  using assms by (simp add: on_ui_update_def)

lemma press_simps [simp]:
  "press [] p = False"
  "press [q] p = (p = q)"
  "press [q, r] p = (p = q \<or> p = r)"
  by (auto simp: press_def)

lemma pins_distinct [simp]:
  "PIN_UP \<noteq> PIN_KEY3" "PIN_DOWN \<noteq> PIN_KEY3" "PIN_LEFT \<noteq> PIN_KEY3" "PIN_RIGHT \<noteq> PIN_KEY3"
  "PIN_KEY3 \<noteq> PIN_UP" "PIN_KEY3 \<noteq> PIN_DOWN" "PIN_KEY3 \<noteq> PIN_LEFT" "PIN_KEY3 \<noteq> PIN_RIGHT"
  "PIN_KEY3 \<noteq> PIN_KEY1" "PIN_KEY3 \<noteq> PIN_KEY2" "PIN_KEY1 \<noteq> PIN_KEY3" "PIN_KEY2 \<noteq> PIN_KEY3"
  "PIN_DOWN \<noteq> PIN_UP" "PIN_UP \<noteq> PIN_DOWN"
  "PIN_LEFT \<noteq> PIN_UP" "PIN_LEFT \<noteq> PIN_DOWN" "PIN_KEY2 \<noteq> PIN_UP" "PIN_KEY2 \<noteq> PIN_DOWN"
  "PIN_UP \<noteq> PIN_LEFT" "PIN_DOWN \<noteq> PIN_LEFT" "PIN_UP \<noteq> PIN_KEY2" "PIN_DOWN \<noteq> PIN_KEY2"
  "PIN_RIGHT \<noteq> PIN_UP" "PIN_RIGHT \<noteq> PIN_DOWN" "PIN_RIGHT \<noteq> PIN_LEFT" "PIN_RIGHT \<noteq> PIN_KEY2"
  "PIN_UP \<noteq> PIN_RIGHT" "PIN_DOWN \<noteq> PIN_RIGHT" "PIN_LEFT \<noteq> PIN_RIGHT" "PIN_KEY2 \<noteq> PIN_RIGHT"
  "PIN_KEY1 \<noteq> PIN_UP" "PIN_KEY1 \<noteq> PIN_DOWN" "PIN_KEY1 \<noteq> PIN_LEFT" "PIN_KEY1 \<noteq> PIN_KEY2"
  "PIN_UP \<noteq> PIN_KEY1" "PIN_DOWN \<noteq> PIN_KEY1" "PIN_LEFT \<noteq> PIN_KEY1" "PIN_KEY2 \<noteq> PIN_KEY1"
  "PIN_RIGHT \<noteq> PIN_KEY1" "PIN_KEY1 \<noteq> PIN_RIGHT" "PIN_LEFT \<noteq> PIN_KEY2" "PIN_KEY2 \<noteq> PIN_LEFT"
  by (simp_all add: pin_defs)

text \<open>
  C4, as the code has it. The toggle edge is acted on first whenever it fires. If the
  menu is open after that, one more edge is acted on: the first that fires in the order
  up, down, back (LEFT or KEY2), select (RIGHT or KEY1); the tick then ends as a tick on
  the toggled state in which only that edge fires. A toggle edge that closes the menu
  ends the tick; one that opens it suppresses nothing.
\<close>

theorem tick_is_toggle_then_first_of_chain:
  "on_ui_update w e =
     (if \<not> ready w then Inr w
      else if (if e PIN_KEY3 then menu_open w else \<not> menu_open w)
        then Inr (w\<lparr>menu_open := False\<rparr>)
      else if e PIN_UP then on_ui_update (w\<lparr>menu_open := True\<rparr>) (press [PIN_UP])
      else if e PIN_DOWN then on_ui_update (w\<lparr>menu_open := True\<rparr>) (press [PIN_DOWN])
      else if e PIN_LEFT \<or> e PIN_KEY2 then on_ui_update (w\<lparr>menu_open := True\<rparr>) (press [PIN_LEFT])
      else if e PIN_RIGHT \<or> e PIN_KEY1 then on_ui_update (w\<lparr>menu_open := True\<rparr>) (press [PIN_RIGHT])
      else on_ui_update (w\<lparr>menu_open := True\<rparr>) (press []))"
proof (cases "ready w")
  case False
  then show ?thesis by (simp add: on_ui_update_def)
next
  case True
  let ?o = "w\<lparr>menu_open := True\<rparr>"
  have o: "ready ?o" "menu_open ?o"
    using True by simp_all
  show ?thesis
  proof (cases "if e PIN_KEY3 then menu_open w else \<not> menu_open w")
    case closed: True
    have "(if e PIN_KEY3 then w\<lparr>menu_open := \<not> menu_open w\<rparr> else w) = w\<lparr>menu_open := False\<rparr>"
      using closed by (auto split: if_splits)
    then show ?thesis
      using True closed by (simp add: on_ui_update_def)
  next
    case opened: False
    have w1: "(if e PIN_KEY3 then w\<lparr>menu_open := \<not> menu_open w\<rparr> else w) = ?o"
      using opened by (auto split: if_splits)
    consider (c_up) "e PIN_UP"
      | (c_down) "\<not> e PIN_UP" "e PIN_DOWN"
      | (c_back) "\<not> e PIN_UP" "\<not> e PIN_DOWN" "e PIN_LEFT \<or> e PIN_KEY2"
      | (c_select) "\<not> e PIN_UP" "\<not> e PIN_DOWN" "\<not> (e PIN_LEFT \<or> e PIN_KEY2)"
          "e PIN_RIGHT \<or> e PIN_KEY1"
      | (c_none) "\<not> e PIN_UP" "\<not> e PIN_DOWN" "\<not> (e PIN_LEFT \<or> e PIN_KEY2)"
          "\<not> (e PIN_RIGHT \<or> e PIN_KEY1)"
      by blast
    then show ?thesis
    proof cases
      case c_up
      then show ?thesis
        using True opened w1 by (simp add: on_ui_update_def)
    next
      case c_down
      then show ?thesis
        using True opened w1 by (simp add: on_ui_update_def)
    next
      case c_back
      then show ?thesis
        using True opened w1 by (simp add: on_ui_update_def)
    next
      case c_select
      then show ?thesis
        using True opened w1 by (simp add: on_ui_update_def)
    next
      case c_none
      then show ?thesis
        using True opened w1 by (simp add: on_ui_update_def)
    qed
  qed
qed

text \<open>
  C4 as stated fails: with the menu closed, a tick in which KEY3 and UP both give an edge
  opens the menu and moves the selection from 0 to 9; one in which KEY3 and RIGHT both
  give an edge opens the menu and starts the action of the selected entry.
\<close>

theorem toggle_edge_does_not_suppress:
  "\<not> menu_open (on_loaded init) \<and> menu_index (on_loaded init) = 0 \<and>
   threads (on_loaded init) = [] \<and>
   on_ui_update (on_loaded init) (press [PIN_KEY3, PIN_UP]) =
     Inr (draw_menu (on_loaded init\<lparr>menu_open := True, menu_index := 9\<rparr>)) \<and>
   on_ui_update (on_loaded init) (press [PIN_KEY3, PIN_RIGHT]) =
     Inr (draw_menu (on_loaded init\<lparr>menu_open := True, threads := [(''Status'', Act_status)]\<rparr>))"
  by (simp add: on_ui_update_def on_loaded_def init_def py_getitem_def)

text \<open>
  C8. When the selected entry is a separator (its action is \<open>None\<close>), a select edge is
  a no-op in every tick: the tick ends exactly as it does without the select edge, and no
  thread is started. In a tick in which the select edge is the one acted on (no up, down
  or back edge before it), the selection index is unchanged, and so is the open flag
  unless the toggle edge of the same tick changed it.
\<close>

theorem select_on_separator_is_noop:
  assumes "py_getitem (menu_items w) (menu_index w) = Some (label, None)"
  shows "on_ui_update w e = on_ui_update w (e(PIN_RIGHT := False, PIN_KEY1 := False)) \<and>
         (\<forall>w'. on_ui_update w e = Inr w' \<longrightarrow> threads w' = threads w) \<and>
         (ready w \<and> \<not> e PIN_UP \<and> \<not> e PIN_DOWN \<and> \<not> e PIN_LEFT \<and> \<not> e PIN_KEY2 \<and>
          (e PIN_RIGHT \<or> e PIN_KEY1) \<longrightarrow>
            (\<exists>w'. on_ui_update w e = Inr w' \<and> threads w' = threads w \<and>
                  menu_index w' = menu_index w \<and> menu_items w' = menu_items w \<and>
                  (\<not> e PIN_KEY3 \<longrightarrow> menu_open w' = menu_open w)))"
proof -
  note sep = assms
  have a: "on_ui_update w e = on_ui_update w (e(PIN_RIGHT := False, PIN_KEY1 := False))"
    using sep by (simp add: on_ui_update_def Let_def)
  have b: "threads w' = threads w" if "on_ui_update w e = Inr w'" for w'
    using that sep
    by (auto simp: on_ui_update_def Let_def split: if_splits)
  have c: "\<exists>w'. on_ui_update w e = Inr w' \<and> threads w' = threads w \<and>
                menu_index w' = menu_index w \<and> menu_items w' = menu_items w \<and>
                (\<not> e PIN_KEY3 \<longrightarrow> menu_open w' = menu_open w)"
    if "ready w" "\<not> e PIN_UP" "\<not> e PIN_DOWN" "\<not> e PIN_LEFT" "\<not> e PIN_KEY2"
      "e PIN_RIGHT \<or> e PIN_KEY1"
    using that sep by (auto simp: on_ui_update_def Let_def)
  from a b c show ?thesis
    by blast
qed

theorem select_on_separator_is_noop_witness:
  "py_getitem (menu_items (on_loaded init\<lparr>menu_open := True, menu_index := 5\<rparr>))
     (menu_index (on_loaded init\<lparr>menu_open := True, menu_index := 5\<rparr>)) =
     Some ([CHR 0xE2, CHR 0x80, CHR 0x94], None) \<and>
   ready (on_loaded init\<lparr>menu_open := True, menu_index := 5\<rparr>) \<and>
   press [PIN_RIGHT] PIN_RIGHT \<and>
   on_ui_update (on_loaded init\<lparr>menu_open := True, menu_index := 5\<rparr>) (press [PIN_RIGHT]) =
     on_ui_update (on_loaded init\<lparr>menu_open := True, menu_index := 5\<rparr>) (press []) \<and>
   (\<exists>w'. on_ui_update (on_loaded init\<lparr>menu_open := True, menu_index := 5\<rparr>) (press [PIN_RIGHT]) =
           Inr w' \<and> threads w' = [] \<and> menu_index w' = 5 \<and> menu_open w')"
proof -
  let ?w = "on_loaded init\<lparr>menu_open := True, menu_index := 5\<rparr>"
  have sep: "py_getitem (menu_items ?w) (menu_index ?w) = Some ([CHR 0xE2, CHR 0x80, CHR 0x94], None)"
    by (simp add: on_loaded_def init_def py_getitem_def)
  have cleared: "(press [PIN_RIGHT])(PIN_RIGHT := False, PIN_KEY1 := False) = press []"
    by (auto simp: press_def fun_eq_iff)
  have fires: "ready ?w \<and> \<not> press [PIN_RIGHT] PIN_UP \<and> \<not> press [PIN_RIGHT] PIN_DOWN \<and>
      \<not> press [PIN_RIGHT] PIN_LEFT \<and> \<not> press [PIN_RIGHT] PIN_KEY2 \<and>
      (press [PIN_RIGHT] PIN_RIGHT \<or> press [PIN_RIGHT] PIN_KEY1)"
    by (simp add: on_loaded_def)
  have vals: "threads ?w = []" "menu_index ?w = 5" "menu_open ?w" "\<not> press [PIN_RIGHT] PIN_KEY3"
    by (simp_all add: on_loaded_def init_def)
  from select_on_separator_is_noop [OF sep, of "press [PIN_RIGHT]"] fires
  have "on_ui_update ?w (press [PIN_RIGHT]) = on_ui_update ?w (press [])"
    and "\<exists>w'. on_ui_update ?w (press [PIN_RIGHT]) = Inr w' \<and> threads w' = threads ?w \<and>
           menu_index w' = menu_index ?w \<and> menu_items w' = menu_items ?w \<and>
           (\<not> press [PIN_RIGHT] PIN_KEY3 \<longrightarrow> menu_open w' = menu_open ?w)"
    unfolding cleared by blast+
  then show ?thesis
    using sep fires vals by auto
qed

text \<open>
  C3, as the code has it. The hook never looks at the threads that are running: a select
  edge it acts on at an entry with an action starts one more thread, whatever threads
  \<open>running\<close> have been started before and are still in their body or in their modal
  wait. Nothing bounds the number of actions in flight by one.
\<close>

theorem select_starts_thread_whatever_runs:
  assumes "ready w" and "menu_open w \<noteq> e PIN_KEY3"
    and "\<not> e PIN_UP" and "\<not> e PIN_DOWN" and "\<not> e PIN_LEFT" and "\<not> e PIN_KEY2"
    and "e PIN_RIGHT \<or> e PIN_KEY1"
    and "py_getitem (menu_items w) (menu_index w) = Some (label, Some f)"
  shows "on_ui_update (w\<lparr>threads := running\<rparr>) e =
         Inr (draw_menu (w\<lparr>menu_open := True, threads := running @ [(label, f)]\<rparr>))"
proof (cases "e PIN_KEY3")
  case True
  then have "\<not> menu_open w"
    using assms(2) by simp
  then show ?thesis
    using True assms by (simp add: on_ui_update_def)
next
  case False
  then have "menu_open w"
    using assms(2) by simp
  then have eq: "w\<lparr>menu_open := True\<rparr> = w"
    by (cases w) simp
  show ?thesis
    unfolding eq using False \<open>menu_open w\<close> assms by (simp add: on_ui_update_def)
qed

theorem select_starts_thread_whatever_runs_witness:
  "ready example_open \<and> menu_open example_open \<and> press [PIN_KEY1] PIN_KEY1 \<and>
   py_getitem (menu_items example_open) (menu_index example_open) =
     Some (''Status'', Some Act_status) \<and>
   on_ui_update (example_open\<lparr>threads := [(''Upload logs'', Act_upload_logs)]\<rparr>)
       (press [PIN_KEY1]) =
     Inr (draw_menu (example_open\<lparr>menu_open := True,
            threads := [(''Upload logs'', Act_upload_logs), (''Status'', Act_status)]\<rparr>))"
proof -
  have h: "ready example_open" "menu_open example_open \<noteq> press [PIN_KEY1] PIN_KEY3"
      "\<not> press [PIN_KEY1] PIN_UP" "\<not> press [PIN_KEY1] PIN_DOWN"
      "\<not> press [PIN_KEY1] PIN_LEFT" "\<not> press [PIN_KEY1] PIN_KEY2"
      "press [PIN_KEY1] PIN_RIGHT \<or> press [PIN_KEY1] PIN_KEY1"
      "py_getitem (menu_items example_open) (menu_index example_open) =
         Some (''Status'', Some Act_status)"
    by (simp_all add: example_open_def on_ui_setup_def on_loaded_def init_def py_getitem_def)
  have more: "menu_open example_open" "press [PIN_KEY1] PIN_KEY1"
    by (simp_all add: example_open_def)
  have "[(''Upload logs'', Act_upload_logs)] @ [(''Status'', Act_status)] =
        [(''Upload logs'', Act_upload_logs), (''Status'', Act_status)]"
    by simp
  with select_starts_thread_whatever_runs [OF h, of "[(''Upload logs'', Act_upload_logs)]"]
  have "on_ui_update (example_open\<lparr>threads := [(''Upload logs'', Act_upload_logs)]\<rparr>)
          (press [PIN_KEY1]) =
        Inr (draw_menu (example_open\<lparr>menu_open := True,
               threads := [(''Upload logs'', Act_upload_logs), (''Status'', Act_status)]\<rparr>))"
    by (simp only:)
  with h(1,8) more show ?thesis
    by blast
qed

text \<open>
  C3 as stated fails. The menu is open on ``Status''. A select edge starts its thread;
  the thread draws the result and waits for a confirm or back edge. While that wait is
  displayed, the hook acts on another select edge and starts a second thread.
\<close>

theorem second_thread_during_modal_wait:
  "on_ui_update example_open (press [PIN_RIGHT]) = Inr example_dispatched \<and>
   run_action ''Status'' example_body example_dispatched [] = Waiting example_waiting \<and>
   last (display example_waiting) =
     [''Status:'', ''svc: active'', '''', ''RIGHT/KEY1=OK  LEFT/KEY2=Back''] \<and>
   threads example_waiting = [(''Status'', Act_status)] \<and>
   on_ui_update example_waiting (press [PIN_RIGHT]) =
     Inr (draw_menu (example_waiting
            \<lparr>threads := [(''Status'', Act_status), (''Status'', Act_status)]\<rparr>))"
proof -
  have open_menu: "ready example_open" "menu_open example_open" "ui example_open"
      "threads example_open = []"
      "py_getitem (menu_items example_open) (menu_index example_open) =
         Some (''Status'', Some Act_status)"
    by (simp_all add: example_open_def on_ui_setup_def on_loaded_def init_def py_getitem_def)
  have first: "on_ui_update example_open (press [PIN_RIGHT]) = Inr example_dispatched"
    using open_menu by (simp add: on_ui_update_open example_dispatched_def)
  have lines: "splitlines ''svc: active'' = [''svc: active'']"
    by code_simp
  have run: "run_action ''Status'' example_body example_dispatched [] = Waiting example_waiting"
    using open_menu lines
    by (simp add: run_action_def example_body_def example_waiting_def example_dispatched_def
        draw_msg_def)
  have waiting: "ready example_waiting" "menu_open example_waiting"
      "threads example_waiting = [(''Status'', Act_status)]"
      "py_getitem (menu_items example_waiting) (menu_index example_waiting) =
         Some (''Status'', Some Act_status)"
    using open_menu by (simp_all add: example_waiting_def example_dispatched_def draw_msg_def)
  have shown: "last (display example_waiting) =
      [''Status:'', ''svc: active'', '''', ''RIGHT/KEY1=OK  LEFT/KEY2=Back'']"
    by (simp add: example_waiting_def draw_msg_def)
  have second: "on_ui_update example_waiting (press [PIN_RIGHT]) =
      Inr (draw_menu (example_waiting
             \<lparr>threads := [(''Status'', Act_status), (''Status'', Act_status)]\<rparr>))"
    using waiting by (simp add: on_ui_update_open)
  from first run shown waiting(3) second show ?thesis
    by simp
qed

section \<open>Properties of the capability gate\<close>

lemma strip_flag_marks:
  "py_strip ''1'' = ''1''" "py_strip ''0'' = ''0''" "py_strip '''' = ''''"
  by code_simp+

lemma notify_agent_frame:
  "deauth_flag (snd (notify_agent env act d)) = deauth_flag d"
  "deauth_log (snd (notify_agent env act d)) = deauth_log d"
  "stdout (snd (notify_agent env act d)) = stdout d"
  by (auto simp add: notify_agent_def split: option.splits)

lemma write_flag_frame:
  "deauth_allow (write_flag env new d) = deauth_allow d"
  "deauth_token (write_flag env new d) = deauth_token d"
  "deauth_log (write_flag env new d) = deauth_log d"
  "posted (write_flag env new d) = posted d"
  "stdout (write_flag env new d) = stdout d"
  by (simp_all add: write_flag_def split: write_outcome.splits)

lemma audit_frame:
  "deauth_flag (audit env entry d) = deauth_flag d"
  "posted (audit env entry d) = posted d"
  "stdout (audit env entry d) = stdout d"
  by (simp_all add: audit_def split: append_outcome.splits)

text \<open>What one run of \<open>main\<close> leaves in the flag file and in the log.\<close>

lemma main_flag:
  "deauth_flag (main env d) =
     (case flag_write env of
        Written \<Rightarrow> Some (if read_flag env d then ''0'' else ''1'')
      | Refused \<Rightarrow> deauth_flag d
      | Truncated \<Rightarrow> Some '''')"
  by (simp add: main_def Let_def split_beta audit_frame notify_agent_frame write_flag_def
      split: write_outcome.splits)

lemma main_armed:
  "armed (main env d) =
     (case flag_write env of
        Written \<Rightarrow> \<not> read_flag env d
      | Refused \<Rightarrow> armed d
      | Truncated \<Rightarrow> False)"
  by (simp add: armed_def main_flag strip_flag_marks split: write_outcome.splits)

lemma main_log:
  "deauth_log (main env d) =
     deauth_log d @
     (case log_append env of
        Appended \<Rightarrow>
          [Entry \<lparr>entry_ts = utcnow_iso env @ ''Z'',
                  entry_action = (if read_flag env d then ''disarm'' else ''arm''),
                  entry_method = ''script'',
                  agent_notify = (deauth_allow d \<and> fst (notify_agent env
                                    (if read_flag env d then ''disarm'' else ''arm'') d))\<rparr>]
      | Not_opened \<Rightarrow> []
      | Torn \<Rightarrow> [Fragment])"
proof -
  have fst_eq: "fst (notify_agent env act (write_flag env new d)) = fst (notify_agent env act d)"
    for act new
    by (auto simp add: notify_agent_def write_flag_frame split: option.splits)
  show ?thesis
    by (simp add: main_def Let_def split_beta audit_def notify_agent_frame write_flag_frame
        fst_eq split: append_outcome.splits)
qed

lemma main_stdout:
  "stdout (main env d) =
     stdout d @ [''Deauth: '' @ (if read_flag env d then ''DISARMED'' else ''ARMED'')]"
  by (simp add: main_def Let_def split_beta audit_frame notify_agent_frame write_flag_frame)

lemma main_posted:
  "\<not> deauth_allow d \<Longrightarrow> posted (main env d) = posted d"
  by (simp add: main_def Let_def split_beta audit_frame write_flag_frame)





text \<open>
  C2, as the code has it. When the allow file does not exist, \<open>main\<close> hands nothing to
  the agent, and the audit entry it appends has \<open>agent_notify\<close> false. What becomes of
  the flag depends on the write of the flag file alone. When the write succeeds, the
  file holds the mark of the opposite of the value read, and the flag is flipped. When
  the file cannot be opened, it is left as it was. When the write fails after \<open>open\<close>,
  the file is left empty, which reads as disarmed. The failures are swallowed: the
  entry and the printed line report the new state in each case.
\<close>

theorem toggle_without_allow_file:
  assumes "\<not> deauth_allow d"
  shows "posted (main env d) = posted d \<and>
         deauth_log (main env d) =
           deauth_log d @
           (case log_append env of
              Appended \<Rightarrow>
                [Entry \<lparr>entry_ts = utcnow_iso env @ ''Z'',
                        entry_action = (if read_flag env d then ''disarm'' else ''arm''),
                        entry_method = ''script'', agent_notify = False\<rparr>]
            | Not_opened \<Rightarrow> []
            | Torn \<Rightarrow> [Fragment]) \<and>
         (flag_write env = Written \<longrightarrow>
            deauth_flag (main env d) = Some (if read_flag env d then ''0'' else ''1'') \<and>
            armed (main env d) = (\<not> read_flag env d)) \<and>
         (flag_write env = Refused \<longrightarrow> deauth_flag (main env d) = deauth_flag d) \<and>
         (flag_write env = Truncated \<longrightarrow>
            deauth_flag (main env d) = Some '''' \<and> \<not> armed (main env d)) \<and>
         stdout (main env d) =
           stdout d @ [''Deauth: '' @ (if read_flag env d then ''DISARMED'' else ''ARMED'')]"
proof -
  have "posted (main env d) = posted d"
    using assms by (rule main_posted)
  moreover have "deauth_log (main env d) =
      deauth_log d @
      (case log_append env of
         Appended \<Rightarrow>
           [Entry \<lparr>entry_ts = utcnow_iso env @ ''Z'',
                   entry_action = (if read_flag env d then ''disarm'' else ''arm''),
                   entry_method = ''script'', agent_notify = False\<rparr>]
       | Not_opened \<Rightarrow> []
       | Torn \<Rightarrow> [Fragment])"
    using assms by (simp add: main_log split: append_outcome.splits)
  moreover have "flag_write env = Written \<longrightarrow>
      deauth_flag (main env d) = Some (if read_flag env d then ''0'' else ''1'') \<and>
      armed (main env d) = (\<not> read_flag env d)"
    by (simp add: main_flag main_armed)
  moreover have "flag_write env = Refused \<longrightarrow> deauth_flag (main env d) = deauth_flag d"
    by (simp add: main_flag)
  moreover have "flag_write env = Truncated \<longrightarrow>
      deauth_flag (main env d) = Some '''' \<and> \<not> armed (main env d)"
    by (simp add: main_flag main_armed)
  moreover note main_stdout [of env d]
  ultimately show ?thesis
    by blast
qed

theorem toggle_without_allow_file_witness:
  "\<not> deauth_allow example_device \<and> flag_write example_env = Written \<and>
   log_append example_env = Appended \<and>
   posted (main example_env example_device) = [] \<and>
   deauth_log (main example_env example_device) =
     [Entry \<lparr>entry_ts = ''2025-01-01T00:00:00Z'', entry_action = ''arm'',
             entry_method = ''script'', agent_notify = False\<rparr>] \<and>
   deauth_flag (main example_env example_device) = Some ''1'' \<and>
   armed (main example_env example_device)"
proof -
  have h: "\<not> deauth_allow example_device" "flag_write example_env = Written"
      "log_append example_env = Appended" "\<not> read_flag example_env example_device"
      "posted example_device = []" "deauth_log example_device = []"
      "utcnow_iso example_env = ''2025-01-01T00:00:00''"
    by (simp_all add: example_device_def example_env_def read_flag_def)
  from toggle_without_allow_file [OF h(1), of example_env] h
  show ?thesis
    by simp
qed

text \<open>
  C2 as stated fails: the flag is not always flipped. The device has no allow file. A
  run that cannot open the flag file leaves the flag absent, and a run whose write
  fails after \<open>open\<close> turns the disarmed flag \<open>0\<close> into an empty file, disarmed as
  before; in both runs the audit entry and the printed line say that the flag was armed.
\<close>

theorem failed_flag_write_is_not_a_flip:
  "\<not> deauth_allow example_device \<and>
   \<not> armed example_device \<and>
   deauth_flag (main (example_env\<lparr>flag_write := Refused\<rparr>) example_device) = None \<and>
   \<not> armed (main (example_env\<lparr>flag_write := Refused\<rparr>) example_device) \<and>
   deauth_log (main (example_env\<lparr>flag_write := Refused\<rparr>) example_device) =
     [Entry \<lparr>entry_ts = ''2025-01-01T00:00:00Z'', entry_action = ''arm'',
             entry_method = ''script'', agent_notify = False\<rparr>] \<and>
   stdout (main (example_env\<lparr>flag_write := Refused\<rparr>) example_device) =
     [''Deauth: ARMED''] \<and>
   \<not> armed (example_device\<lparr>deauth_flag := Some ''0''\<rparr>) \<and>
   deauth_flag (main (example_env\<lparr>flag_write := Truncated\<rparr>)
                  (example_device\<lparr>deauth_flag := Some ''0''\<rparr>)) = Some '''' \<and>
   \<not> armed (main (example_env\<lparr>flag_write := Truncated\<rparr>)
              (example_device\<lparr>deauth_flag := Some ''0''\<rparr>)) \<and>
   deauth_log (main (example_env\<lparr>flag_write := Truncated\<rparr>)
                 (example_device\<lparr>deauth_flag := Some ''0''\<rparr>)) =
     [Entry \<lparr>entry_ts = ''2025-01-01T00:00:00Z'', entry_action = ''arm'',
             entry_method = ''script'', agent_notify = False\<rparr>] \<and>
   stdout (main (example_env\<lparr>flag_write := Truncated\<rparr>)
             (example_device\<lparr>deauth_flag := Some ''0''\<rparr>)) =
     [''Deauth: ARMED'']"
  by (simp add: main_log main_flag main_armed main_stdout armed_def strip_flag_marks
      example_device_def example_env_def read_flag_def)

section \<open>Properties of the paginated viewers\<close>

lemma take_chunks:
  "concat (map ((\<lambda>i. take 6 (drop i xs)) \<circ> (\<lambda>k. k * 6)) [0 ..< m]) = take (m * 6) xs"
proof (induction m)
  case 0
  then show ?case by simp
next
  case (Suc m)
  have "take (m * 6) xs @ take 6 (drop (m * 6) xs) = take (m * 6 + 6) xs"
    by (simp add: take_add)
  with Suc show ?case
    by (simp add: add.commute)
qed

lemma concat_chunks: "concat (chunks xs) = xs"
proof -
  have "length xs \<le> (length xs + 6 - 1) div 6 * 6"
    by presburger
  then show ?thesis
    by (simp add: chunks_def range_step_def take_chunks)
qed

lemma chunks_22:
  assumes "length xs = 22"
  shows "chunks xs = [take 6 xs, take 6 (drop 6 xs), take 6 (drop 12 xs), take 6 (drop 18 xs)]"
proof -
  have "[0 ..< (22 + 6 - 1) div 6] = [0, 1, 2, Suc 2]"
    by (simp add: upt_rec)
  then show ?thesis
    using assms by (simp add: chunks_def range_step_def)
qed

lemma wait_page_idle:
  assumes "\<forall>e \<in> set idle. \<not> (e PIN_RIGHT \<or> e PIN_KEY1 \<or> e PIN_LEFT \<or> e PIN_KEY2)"
  shows "wait_page (idle @ es) = wait_page es"
  using assms by (induction idle) auto

lemma wait_page_next:
  assumes "\<forall>e \<in> set idle. \<not> (e PIN_RIGHT \<or> e PIN_KEY1 \<or> e PIN_LEFT \<or> e PIN_KEY2)"
    and "nx PIN_RIGHT \<or> nx PIN_KEY1"
  shows "wait_page (idle @ nx # es) = Some (True, es)"
  using assms by (simp add: wait_page_idle)

lemma wait_page_back:
  assumes "\<forall>e \<in> set idle. \<not> (e PIN_RIGHT \<or> e PIN_KEY1 \<or> e PIN_LEFT \<or> e PIN_KEY2)"
    and "\<not> (bk PIN_RIGHT \<or> bk PIN_KEY1)" and "bk PIN_LEFT \<or> bk PIN_KEY2"
  shows "wait_page (idle @ bk # es) = Some (False, es)"
  using assms by (simp add: wait_page_idle)

text \<open>
  C7. A list of 22 lines is cut into four pages of 6, 6, 6 and 4 lines which, put
  together, are the list. When the first page is left by a next edge and a back edge
  comes while the second is shown, the viewer returns at that edge with the empty
  string: it has drawn the first two pages and nothing else, and the state it hands back
  differs from the caller's only in these two images on the display. Rounds of the wait
  loops in which no button gives an edge (\<open>idle1\<close>, \<open>idle2\<close>) change nothing.
\<close>

theorem events_viewer_22_lines:
  assumes "length xs = 22"
    and "\<forall>e \<in> set idle1. \<not> (e PIN_RIGHT \<or> e PIN_KEY1 \<or> e PIN_LEFT \<or> e PIN_KEY2)"
    and "nx PIN_RIGHT \<or> nx PIN_KEY1"
    and "\<forall>e \<in> set idle2. \<not> (e PIN_RIGHT \<or> e PIN_KEY1 \<or> e PIN_LEFT \<or> e PIN_KEY2)"
    and "\<not> (bk PIN_RIGHT \<or> bk PIN_KEY1)" and "bk PIN_LEFT \<or> bk PIN_KEY2"
  shows "length (chunks xs) = 4 \<and> map length (chunks xs) = [6, 6, 6, 4] \<and>
         concat (chunks xs) = xs \<and>
         events_pages (chunks xs) w (idle1 @ nx # idle2 @ bk # rest) =
           Returned (Some '''')
             (w\<lparr>display := display w @
                  [take 6 xs @ ['''', ''RIGHT/KEY1=next  LEFT/KEY2=back''],
                   take 6 (drop 6 xs) @ ['''', ''RIGHT/KEY1=next  LEFT/KEY2=back'']]\<rparr>)
             rest"
proof -
  note c = chunks_22 [OF assms(1)]
  have sizes: "map length (chunks xs) = [6, 6, 6, 4]"
    using assms(1) by (simp add: c)
  have first: "wait_page (idle1 @ nx # idle2 @ bk # rest) = Some (True, idle2 @ bk # rest)"
    using assms(2,3) by (rule wait_page_next)
  have second: "wait_page (idle2 @ bk # rest) = Some (False, rest)"
    using assms(4,5,6) by (rule wait_page_back)
  have drawn: "draw_msg b (draw_msg a w) = w\<lparr>display := display w @ [a, b]\<rparr>" for a b
    by (simp add: draw_msg_def)
  have "events_pages (chunks xs) w (idle1 @ nx # idle2 @ bk # rest) =
        Returned (Some '''')
          (draw_msg (take 6 (drop 6 xs) @ ['''', ''RIGHT/KEY1=next  LEFT/KEY2=back''])
             (draw_msg (take 6 xs @ ['''', ''RIGHT/KEY1=next  LEFT/KEY2=back'']) w))
          rest"
    by (simp add: c first second)
  then have pages: "events_pages (chunks xs) w (idle1 @ nx # idle2 @ bk # rest) =
        Returned (Some '''')
          (w\<lparr>display := display w @
               [take 6 xs @ ['''', ''RIGHT/KEY1=next  LEFT/KEY2=back''],
                take 6 (drop 6 xs) @ ['''', ''RIGHT/KEY1=next  LEFT/KEY2=back'']]\<rparr>)
          rest"
    by (simp only: drawn)
  have "length (chunks xs) = 4"
    by (simp add: c)
  with sizes concat_chunks [of xs] pages show ?thesis
    by blast
qed

theorem events_viewer_22_lines_witness:
  "length example_events = 22 \<and>
   chunks example_events =
     [[''e01 INFO'', ''e02 INFO'', ''e03 INFO'', ''e04 INFO'', ''e05 INFO'', ''e06 INFO''],
      [''e07 INFO'', ''e08 INFO'', ''e09 INFO'', ''e10 INFO'', ''e11 INFO'', ''e12 INFO''],
      [''e13 INFO'', ''e14 INFO'', ''e15 INFO'', ''e16 INFO'', ''e17 INFO'', ''e18 INFO''],
      [''e19 INFO'', ''e20 INFO'', ''e21 INFO'', ''e22 INFO'']] \<and>
   act_show_events (\<lambda>l. True) example_journal example_open
       [press [], press [PIN_RIGHT], press [], press [PIN_KEY2], press [PIN_UP]] =
     Returned (Some '''')
       (example_open\<lparr>display :=
          [[''e01 INFO'', ''e02 INFO'', ''e03 INFO'', ''e04 INFO'', ''e05 INFO'', ''e06 INFO'',
            '''', ''RIGHT/KEY1=next  LEFT/KEY2=back''],
           [''e07 INFO'', ''e08 INFO'', ''e09 INFO'', ''e10 INFO'', ''e11 INFO'', ''e12 INFO'',
            '''', ''RIGHT/KEY1=next  LEFT/KEY2=back'']]\<rparr>)
       [press [PIN_UP]]"
proof -
  have len: "length example_events = 22"
    by (simp add: example_events_def)
  have idle: "\<forall>e \<in> set [press []]. \<not> (e PIN_RIGHT \<or> e PIN_KEY1 \<or> e PIN_LEFT \<or> e PIN_KEY2)"
    by simp
  have nx: "press [PIN_RIGHT] PIN_RIGHT \<or> press [PIN_RIGHT] PIN_KEY1"
    by simp
  have bk: "\<not> (press [PIN_KEY2] PIN_RIGHT \<or> press [PIN_KEY2] PIN_KEY1)"
      "press [PIN_KEY2] PIN_LEFT \<or> press [PIN_KEY2] PIN_KEY2"
    by simp_all
  have journal: "event_lines (\<lambda>l. True) example_journal = example_events"
      "py_strip example_journal \<noteq> []"
    by code_simp+
  have pages: "chunks example_events =
     [[''e01 INFO'', ''e02 INFO'', ''e03 INFO'', ''e04 INFO'', ''e05 INFO'', ''e06 INFO''],
      [''e07 INFO'', ''e08 INFO'', ''e09 INFO'', ''e10 INFO'', ''e11 INFO'', ''e12 INFO''],
      [''e13 INFO'', ''e14 INFO'', ''e15 INFO'', ''e16 INFO'', ''e17 INFO'', ''e18 INFO''],
      [''e19 INFO'', ''e20 INFO'', ''e21 INFO'', ''e22 INFO'']]"
    by code_simp
  have shown: "display example_open = []"
    by (simp add: example_open_def on_ui_setup_def on_loaded_def init_def)
  have "events_pages (chunks example_events) example_open
          ([press []] @ press [PIN_RIGHT] # [press []] @ press [PIN_KEY2] # [press [PIN_UP]]) =
        Returned (Some '''')
          (example_open\<lparr>display := display example_open @
             [take 6 example_events @ ['''', ''RIGHT/KEY1=next  LEFT/KEY2=back''],
              take 6 (drop 6 example_events) @ ['''', ''RIGHT/KEY1=next  LEFT/KEY2=back'']]\<rparr>)
          [press [PIN_UP]]"
    using events_viewer_22_lines [OF len idle nx idle bk] by blast
  then have "act_show_events (\<lambda>l. True) example_journal example_open
       [press [], press [PIN_RIGHT], press [], press [PIN_KEY2], press [PIN_UP]] =
     Returned (Some '''')
       (example_open\<lparr>display :=
          [[''e01 INFO'', ''e02 INFO'', ''e03 INFO'', ''e04 INFO'', ''e05 INFO'', ''e06 INFO'',
            '''', ''RIGHT/KEY1=next  LEFT/KEY2=back''],
           [''e07 INFO'', ''e08 INFO'', ''e09 INFO'', ''e10 INFO'', ''e11 INFO'', ''e12 INFO'',
            '''', ''RIGHT/KEY1=next  LEFT/KEY2=back'']]\<rparr>)
       [press [PIN_UP]]"
    by (simp add: act_show_events_def journal shown example_events_def)
  with len pages show ?thesis
    by blast
qed

section \<open>Properties of the action dispatcher\<close>

text \<open>An exception leaves \<open>_run_action\<close> exactly when the body raised it and the handler
  does not catch its class.\<close>

lemma run_action_Raised:
  "run_action label fn w es = Raised cls m w' es' \<longleftrightarrow>
     ui w \<and> cls \<noteq> Exception \<and> fn (draw_msg [label @ ''...''] w) es = Raised cls m w' es'"
  by (auto simp add: run_action_def Let_def split: progress.splits option.splits)

lemma splitlines_Done: "splitlines ''Done.'' = [''Done.'']"
  by code_simp

text \<open>A viewer left by a back edge after some pages: it returns the empty string, having
  drawn the pages up to the one that was shown.\<close>

lemma events_pages_back:
  assumes "length nexts < length pages"
    and "\<forall>e \<in> set nexts. e PIN_RIGHT \<or> e PIN_KEY1"
    and "\<forall>e \<in> set idle. \<not> (e PIN_RIGHT \<or> e PIN_KEY1 \<or> e PIN_LEFT \<or> e PIN_KEY2)"
    and "\<not> (bk PIN_RIGHT \<or> bk PIN_KEY1)" and "bk PIN_LEFT \<or> bk PIN_KEY2"
  shows "events_pages pages w (nexts @ idle @ bk # rest) =
     Returned (Some '''')
       (w\<lparr>display := display w @
            map (\<lambda>chunk. chunk @ ['''', ''RIGHT/KEY1=next  LEFT/KEY2=back''])
              (take (Suc (length nexts)) pages)\<rparr>)
       rest"
  using assms(1,2)
proof (induction nexts arbitrary: pages w)
  case Nil
  then obtain p ps where pages: "pages = p # ps"
    by (cases pages) auto
  have "wait_page (idle @ bk # rest) = Some (False, rest)"
    using assms(3,4,5) by (rule wait_page_back)
  then show ?case
    by (simp add: pages draw_msg_def)
next
  case (Cons e nexts)
  then obtain p ps where pages: "pages = p # ps" and shorter: "length nexts < length ps"
    by (cases pages) auto
  have "e PIN_RIGHT \<or> e PIN_KEY1" and rest_next: "\<forall>e \<in> set nexts. e PIN_RIGHT \<or> e PIN_KEY1"
    using Cons.prems(2) by auto
  then have "wait_page ((e # nexts) @ idle @ bk # rest) = Some (True, nexts @ idle @ bk # rest)"
    by auto
  then show ?case
    using Cons.IH [OF shorter rest_next] by (simp add: pages draw_msg_def)
qed

lemma networks_pages_back:
  assumes "length nexts < length newest"
    and "\<forall>e \<in> set nexts. e PIN_RIGHT \<or> e PIN_KEY1"
    and "\<forall>e \<in> set idle. \<not> (e PIN_RIGHT \<or> e PIN_KEY1 \<or> e PIN_LEFT \<or> e PIN_KEY2)"
    and "\<not> (bk PIN_RIGHT \<or> bk PIN_KEY1)" and "bk PIN_LEFT \<or> bk PIN_KEY2"
  shows "networks_pages newest w (nexts @ idle @ bk # rest) =
     Returned (Some '''')
       (w\<lparr>display := display w @
            map (\<lambda>ssid. [''SSID: '' @ ssid, '''', ''RIGHT/KEY1=next  LEFT/KEY2=back''])
              (take (Suc (length nexts)) newest)\<rparr>)
       rest"
  using assms(1,2)
proof (induction nexts arbitrary: newest w)
  case Nil
  then obtain p ps where pages: "newest = p # ps"
    by (cases newest) auto
  have "wait_page (idle @ bk # rest) = Some (False, rest)"
    using assms(3,4,5) by (rule wait_page_back)
  then show ?case
    by (simp add: pages draw_msg_def)
next
  case (Cons e nexts)
  then obtain p ps where pages: "newest = p # ps" and shorter: "length nexts < length ps"
    by (cases newest) auto
  have "e PIN_RIGHT \<or> e PIN_KEY1" and rest_next: "\<forall>e \<in> set nexts. e PIN_RIGHT \<or> e PIN_KEY1"
    using Cons.prems(2) by auto
  then have "wait_page ((e # nexts) @ idle @ bk # rest) = Some (True, nexts @ idle @ bk # rest)"
    by auto
  then show ?case
    using Cons.IH [OF shorter rest_next] by (simp add: pages draw_msg_def)
qed

text \<open>
  C10. When the body of a dispatched action returns \<open>None\<close> or the empty string, the
  dispatcher draws the label line, the line ``Done.'', an empty line and the footer, and
  returns once a confirm or back edge comes. The events viewer and the networks viewer
  return the empty string when they are left by a back edge (after any number of pages),
  so that the dispatcher then shows ``Done.'' for them.
\<close>

theorem empty_result_shows_done:
  assumes "ui w"
  shows "(fn (draw_msg [label @ ''...''] w) es = Returned out w1 es1 \<and>
            (out = None \<or> out = Some '''') \<longrightarrow>
          state_of (run_action label fn w es) =
            draw_msg [label @ '':'', ''Done.'', '''', ''RIGHT/KEY1=OK  LEFT/KEY2=Back''] w1 \<and>
          (\<forall>es2. modal_wait es1 = Some es2 \<longrightarrow>
             run_action label fn w es =
               Returned ()
                 (draw_msg [label @ '':'', ''Done.'', '''', ''RIGHT/KEY1=OK  LEFT/KEY2=Back''] w1)
                 es2)) \<and>
         (py_strip raw \<noteq> [] \<and> length nexts < length (chunks (event_lines patterns_search raw)) \<and>
            (\<forall>e \<in> set nexts. e PIN_RIGHT \<or> e PIN_KEY1) \<and>
            (\<forall>e \<in> set idle. \<not> (e PIN_RIGHT \<or> e PIN_KEY1 \<or> e PIN_LEFT \<or> e PIN_KEY2)) \<and>
            \<not> (bk PIN_RIGHT \<or> bk PIN_KEY1) \<and> (bk PIN_LEFT \<or> bk PIN_KEY2) \<longrightarrow>
          (\<exists>w2. act_show_events patterns_search raw (draw_msg [label @ ''...''] w)
                   (nexts @ idle @ bk # rest) = Returned (Some '''') w2 rest \<and>
                state_of (run_action label (act_show_events patterns_search raw) w
                   (nexts @ idle @ bk # rest)) =
                  draw_msg [label @ '':'', ''Done.'', '''', ''RIGHT/KEY1=OK  LEFT/KEY2=Back''] w2)) \<and>
         (length nexts < length (newest_networks found) \<and>
            (\<forall>e \<in> set nexts. e PIN_RIGHT \<or> e PIN_KEY1) \<and>
            (\<forall>e \<in> set idle. \<not> (e PIN_RIGHT \<or> e PIN_KEY1 \<or> e PIN_LEFT \<or> e PIN_KEY2)) \<and>
            \<not> (bk PIN_RIGHT \<or> bk PIN_KEY1) \<and> (bk PIN_LEFT \<or> bk PIN_KEY2) \<longrightarrow>
          (\<exists>w2. act_show_networks found (draw_msg [label @ ''...''] w)
                   (nexts @ idle @ bk # rest) = Returned (Some '''') w2 rest \<and>
                state_of (run_action label (act_show_networks found) w
                   (nexts @ idle @ bk # rest)) =
                  draw_msg [label @ '':'', ''Done.'', '''', ''RIGHT/KEY1=OK  LEFT/KEY2=Back''] w2))"
proof -
  have done_shown: "state_of (run_action label f w hist) =
        draw_msg [label @ '':'', ''Done.'', '''', ''RIGHT/KEY1=OK  LEFT/KEY2=Back''] v \<and>
      (\<forall>es2. modal_wait hist1 = Some es2 \<longrightarrow>
         run_action label f w hist =
           Returned ()
             (draw_msg [label @ '':'', ''Done.'', '''', ''RIGHT/KEY1=OK  LEFT/KEY2=Back''] v) es2)"
    if "f (draw_msg [label @ ''...''] w) hist = Returned r v hist1" "r = None \<or> r = Some ''''"
    for f hist r v hist1
    using that assms
    by (auto simp: run_action_def Let_def splitlines_Done split: option.splits)
  have events: "\<exists>w2. act_show_events patterns_search raw (draw_msg [label @ ''...''] w)
                   (nexts @ idle @ bk # rest) = Returned (Some '''') w2 rest \<and>
                state_of (run_action label (act_show_events patterns_search raw) w
                   (nexts @ idle @ bk # rest)) =
                  draw_msg [label @ '':'', ''Done.'', '''', ''RIGHT/KEY1=OK  LEFT/KEY2=Back''] w2"
    if "py_strip raw \<noteq> []" "length nexts < length (chunks (event_lines patterns_search raw))"
      "\<forall>e \<in> set nexts. e PIN_RIGHT \<or> e PIN_KEY1"
      "\<forall>e \<in> set idle. \<not> (e PIN_RIGHT \<or> e PIN_KEY1 \<or> e PIN_LEFT \<or> e PIN_KEY2)"
      "\<not> (bk PIN_RIGHT \<or> bk PIN_KEY1)" "bk PIN_LEFT \<or> bk PIN_KEY2"
  proof -
    from events_pages_back [OF that(2-6)] that(1)
    obtain w2 where "act_show_events patterns_search raw (draw_msg [label @ ''...''] w)
                   (nexts @ idle @ bk # rest) = Returned (Some '''') w2 rest"
      by (simp add: act_show_events_def)
    with done_shown show ?thesis
      by blast
  qed
  have networks: "\<exists>w2. act_show_networks found (draw_msg [label @ ''...''] w)
                   (nexts @ idle @ bk # rest) = Returned (Some '''') w2 rest \<and>
                state_of (run_action label (act_show_networks found) w
                   (nexts @ idle @ bk # rest)) =
                  draw_msg [label @ '':'', ''Done.'', '''', ''RIGHT/KEY1=OK  LEFT/KEY2=Back''] w2"
    if "length nexts < length (newest_networks found)"
      "\<forall>e \<in> set nexts. e PIN_RIGHT \<or> e PIN_KEY1"
      "\<forall>e \<in> set idle. \<not> (e PIN_RIGHT \<or> e PIN_KEY1 \<or> e PIN_LEFT \<or> e PIN_KEY2)"
      "\<not> (bk PIN_RIGHT \<or> bk PIN_KEY1)" "bk PIN_LEFT \<or> bk PIN_KEY2"
  proof -
    have "newest_networks found \<noteq> []"
      using that(1) by auto
    with networks_pages_back [OF that(1-5)]
    obtain w2 where "act_show_networks found (draw_msg [label @ ''...''] w)
                   (nexts @ idle @ bk # rest) = Returned (Some '''') w2 rest"
      by (simp add: act_show_networks_def Let_def)
    with done_shown show ?thesis
      by blast
  qed
  from done_shown events networks show ?thesis
    by blast
qed
theorem empty_result_shows_done_witness:
  "ui example_open \<and>
   py_strip example_journal \<noteq> [] \<and>
   length [press [PIN_RIGHT]] < length (chunks (event_lines (\<lambda>l. True) example_journal)) \<and>
   length ([] :: edges list) < length (newest_networks [''homenet'', ''cafe'']) \<and>
   run_action ''Status'' (\<lambda>w es. Returned None w es) example_open [press [PIN_KEY2]] =
     Returned ()
       (example_open\<lparr>display :=
          [[''Status...''],
           [''Status:'', ''Done.'', '''', ''RIGHT/KEY1=OK  LEFT/KEY2=Back'']]\<rparr>)
       [] \<and>
   run_action ''View events (40)'' (act_show_events (\<lambda>l. True) example_journal) example_open
       [press [PIN_RIGHT], press [], press [PIN_LEFT], press [PIN_KEY1]] =
     Returned ()
       (example_open\<lparr>display :=
          [[''View events (40)...''],
           [''e01 INFO'', ''e02 INFO'', ''e03 INFO'', ''e04 INFO'', ''e05 INFO'', ''e06 INFO'',
            '''', ''RIGHT/KEY1=next  LEFT/KEY2=back''],
           [''e07 INFO'', ''e08 INFO'', ''e09 INFO'', ''e10 INFO'', ''e11 INFO'', ''e12 INFO'',
            '''', ''RIGHT/KEY1=next  LEFT/KEY2=back''],
           [''View events (40):'', ''Done.'', '''', ''RIGHT/KEY1=OK  LEFT/KEY2=Back'']]\<rparr>)
       [] \<and>
   run_action ''Saved nets (10)'' (act_show_networks [''homenet'', ''cafe'']) example_open
       [press [PIN_KEY2], press [PIN_RIGHT]] =
     Returned ()
       (example_open\<lparr>display :=
          [[''Saved nets (10)...''],
           [''SSID: homenet'', '''', ''RIGHT/KEY1=next  LEFT/KEY2=back''],
           [''Saved nets (10):'', ''Done.'', '''', ''RIGHT/KEY1=OK  LEFT/KEY2=Back'']]\<rparr>)
       []"
proof -
  have ui: "ui example_open" and shown: "display example_open = []"
    by (simp_all add: example_open_def on_ui_setup_def on_loaded_def init_def)
  have journal: "event_lines (\<lambda>l. True) example_journal = example_events"
      "py_strip example_journal \<noteq> []"
    by code_simp+
  have pages: "chunks example_events =
     [[''e01 INFO'', ''e02 INFO'', ''e03 INFO'', ''e04 INFO'', ''e05 INFO'', ''e06 INFO''],
      [''e07 INFO'', ''e08 INFO'', ''e09 INFO'', ''e10 INFO'', ''e11 INFO'', ''e12 INFO''],
      [''e13 INFO'', ''e14 INFO'', ''e15 INFO'', ''e16 INFO'', ''e17 INFO'', ''e18 INFO''],
      [''e19 INFO'', ''e20 INFO'', ''e21 INFO'', ''e22 INFO'']]"
    by code_simp
  have nets: "newest_networks [''homenet'', ''cafe''] = [''homenet'', ''cafe'']"
    by code_simp
  have none: "(\<lambda>w es. Returned None w es) (draw_msg [''Status'' @ ''...''] example_open)
        [press [PIN_KEY2]] =
      Returned None (draw_msg [''Status...''] example_open) [press [PIN_KEY2]] \<and>
      (None = None \<or> None = Some '''')"
    by simp
  have events: "act_show_events (\<lambda>l. True) example_journal
        (draw_msg [''View events (40)'' @ ''...''] example_open)
        [press [PIN_RIGHT], press [], press [PIN_LEFT], press [PIN_KEY1]] =
      Returned (Some '''')
        (example_open\<lparr>display :=
          [[''View events (40)...''],
           [''e01 INFO'', ''e02 INFO'', ''e03 INFO'', ''e04 INFO'', ''e05 INFO'', ''e06 INFO'',
            '''', ''RIGHT/KEY1=next  LEFT/KEY2=back''],
           [''e07 INFO'', ''e08 INFO'', ''e09 INFO'', ''e10 INFO'', ''e11 INFO'', ''e12 INFO'',
            '''', ''RIGHT/KEY1=next  LEFT/KEY2=back'']]\<rparr>)
        [press [PIN_KEY1]] \<and>
      (Some '''' = None \<or> Some '''' = Some '''')"
    by (simp add: act_show_events_def journal pages draw_msg_def shown)
  have networks: "act_show_networks [''homenet'', ''cafe'']
        (draw_msg [''Saved nets (10)'' @ ''...''] example_open)
        [press [PIN_KEY2], press [PIN_RIGHT]] =
      Returned (Some '''')
        (example_open\<lparr>display :=
          [[''Saved nets (10)...''],
           [''SSID: homenet'', '''', ''RIGHT/KEY1=next  LEFT/KEY2=back'']]\<rparr>)
        [press [PIN_RIGHT]] \<and>
      (Some '''' = None \<or> Some '''' = Some '''')"
    by (simp add: act_show_networks_def nets draw_msg_def shown)
  have w1: "modal_wait [press [PIN_KEY2]] = Some []"
    and w2: "modal_wait [press [PIN_KEY1]] = Some []"
    and w3: "modal_wait [press [PIN_RIGHT]] = Some []"
    by simp_all
  note done_thm = empty_result_shows_done [OF ui]
  have a: "run_action ''Status'' (\<lambda>w es. Returned None w es) example_open [press [PIN_KEY2]] =
      Returned ()
        (draw_msg [''Status'' @ '':'', ''Done.'', '''', ''RIGHT/KEY1=OK  LEFT/KEY2=Back'']
           (draw_msg [''Status...''] example_open)) []"
    using done_thm [where fn = "\<lambda>w es. Returned None w es" and label = "''Status''"
        and es = "[press [PIN_KEY2]]" and out = None
        and ?w1.0 = "draw_msg [''Status...''] example_open" and ?es1.0 = "[press [PIN_KEY2]]", THEN conjunct1]
      none w1 by simp
  have b: "run_action ''View events (40)'' (act_show_events (\<lambda>l. True) example_journal)
        example_open [press [PIN_RIGHT], press [], press [PIN_LEFT], press [PIN_KEY1]] =
      Returned ()
        (draw_msg [''View events (40)'' @ '':'', ''Done.'', '''', ''RIGHT/KEY1=OK  LEFT/KEY2=Back'']
           (example_open\<lparr>display :=
             [[''View events (40)...''],
              [''e01 INFO'', ''e02 INFO'', ''e03 INFO'', ''e04 INFO'', ''e05 INFO'', ''e06 INFO'',
               '''', ''RIGHT/KEY1=next  LEFT/KEY2=back''],
              [''e07 INFO'', ''e08 INFO'', ''e09 INFO'', ''e10 INFO'', ''e11 INFO'', ''e12 INFO'',
               '''', ''RIGHT/KEY1=next  LEFT/KEY2=back'']]\<rparr>)) []"
    using done_thm [where fn = "act_show_events (\<lambda>l. True) example_journal"
        and label = "''View events (40)''"
        and es = "[press [PIN_RIGHT], press [], press [PIN_LEFT], press [PIN_KEY1]]"
        and out = "Some ''''" and ?es1.0 = "[press [PIN_KEY1]]", THEN conjunct1]
      events w2 by simp
  have c: "run_action ''Saved nets (10)'' (act_show_networks [''homenet'', ''cafe''])
        example_open [press [PIN_KEY2], press [PIN_RIGHT]] =
      Returned ()
        (draw_msg [''Saved nets (10)'' @ '':'', ''Done.'', '''', ''RIGHT/KEY1=OK  LEFT/KEY2=Back'']
           (example_open\<lparr>display :=
             [[''Saved nets (10)...''],
              [''SSID: homenet'', '''', ''RIGHT/KEY1=next  LEFT/KEY2=back'']]\<rparr>)) []"
    using done_thm [where fn = "act_show_networks [''homenet'', ''cafe'']"
        and label = "''Saved nets (10)''"
        and es = "[press [PIN_KEY2], press [PIN_RIGHT]]"
        and out = "Some ''''" and ?es1.0 = "[press [PIN_RIGHT]]", THEN conjunct1]
      networks w3 by simp
  have hyps: "length [press [PIN_RIGHT]] < length (chunks (event_lines (\<lambda>l. True) example_journal))"
      "length ([] :: edges list) < length (newest_networks [''homenet'', ''cafe''])"
    by (simp_all add: journal pages nets)
  from a b c ui hyps journal(2) show ?thesis
    by (simp add: draw_msg_def shown)
qed

lemma modal_wait_ends:
  assumes "\<forall>e \<in> set idle. \<not> (e PIN_RIGHT \<or> e PIN_KEY1 \<or> e PIN_LEFT \<or> e PIN_KEY2)"
    and "ok PIN_RIGHT \<or> ok PIN_KEY1 \<or> ok PIN_LEFT \<or> ok PIN_KEY2"
  shows "modal_wait (idle @ ok # rest) = Some rest"
  using assms by (induction idle) auto

lemma wait_then_return:
  assumes "run_action label fn w es =
     (case modal_wait es1 of None \<Rightarrow> Waiting v | Some es2 \<Rightarrow> Returned () v es2)"
  shows "state_of (run_action label fn w es) = v \<and>
      (\<forall>idle ok rest.
         es1 = idle @ ok # rest \<and>
         (\<forall>e \<in> set idle. \<not> (e PIN_RIGHT \<or> e PIN_KEY1 \<or> e PIN_LEFT \<or> e PIN_KEY2)) \<and>
         (ok PIN_RIGHT \<or> ok PIN_KEY1 \<or> ok PIN_LEFT \<or> ok PIN_KEY2) \<longrightarrow>
         run_action label fn w es = Returned () v rest)"
proof -
  have "state_of (run_action label fn w es) = v"
    by (simp add: assms split: option.splits)
  moreover have "run_action label fn w es = Returned () v rest"
    if "es1 = idle @ ok # rest"
      "\<forall>e \<in> set idle. \<not> (e PIN_RIGHT \<or> e PIN_KEY1 \<or> e PIN_LEFT \<or> e PIN_KEY2)"
      "ok PIN_RIGHT \<or> ok PIN_KEY1 \<or> ok PIN_LEFT \<or> ok PIN_KEY2"
    for idle ok rest
  proof -
    have "modal_wait es1 = Some rest"
      unfolding that(1) using that(2,3) by (rule modal_wait_ends)
    then show ?thesis
      by (simp add: assms)
  qed
  ultimately show ?thesis
    by blast
qed

text \<open>
  C6, as the code has it. When the body raises an exception that is an instance of
  \<open>Exception\<close>, \<open>_run_action\<close> catches it, and the screen drawn is the label, an empty
  line, the line \<open>Error: \<close> followed by the message of the exception, an empty line and
  the footer. An exception of another class (\<open>SystemExit\<close>, \<open>KeyboardInterrupt\<close>,
  \<open>GeneratorExit\<close>) is not caught: it leaves \<open>_run_action\<close> as the body raised it, and
  no screen is drawn for it. Nothing else leaves \<open>_run_action\<close> as an exception. When
  the body returns a text that is not empty, the screen is the label followed by a
  colon, the first 8 lines of the text, an empty line and the footer; when it returns
  \<open>None\<close> or the empty text, the line ``Done.'' stands in place of the lines of the
  text. Where a screen is drawn, the dispatcher returns once a confirm or back edge
  comes, after any number of rounds without one.
\<close>

theorem run_action_shows_result_or_error:
  "(run_action label fn w es = Raised cls m w' es' \<longrightarrow>
      cls \<noteq> Exception \<and> fn (draw_msg [label @ ''...''] w) es = Raised cls m w' es') \<and>
   (ui w \<and> fn (draw_msg [label @ ''...''] w) es = Raised cls msg w1 es1 \<and>
      cls \<noteq> Exception \<longrightarrow>
      run_action label fn w es = Raised cls msg w1 es1) \<and>
   (ui w \<and> fn (draw_msg [label @ ''...''] w) es = Raised Exception msg w1 es1 \<longrightarrow>
      state_of (run_action label fn w es) =
        draw_msg [label, '''', ''Error: '' @ msg, '''', ''RIGHT/KEY1=OK  LEFT/KEY2=Back''] w1 \<and>
      (\<forall>idle ok rest.
         es1 = idle @ ok # rest \<and>
         (\<forall>e \<in> set idle. \<not> (e PIN_RIGHT \<or> e PIN_KEY1 \<or> e PIN_LEFT \<or> e PIN_KEY2)) \<and>
         (ok PIN_RIGHT \<or> ok PIN_KEY1 \<or> ok PIN_LEFT \<or> ok PIN_KEY2) \<longrightarrow>
         run_action label fn w es =
           Returned ()
             (draw_msg [label, '''', ''Error: '' @ msg, '''', ''RIGHT/KEY1=OK  LEFT/KEY2=Back''] w1)
             rest)) \<and>
   (ui w \<and> fn (draw_msg [label @ ''...''] w) es = Returned (Some out) w1 es1 \<and> out \<noteq> [] \<longrightarrow>
      state_of (run_action label fn w es) =
        draw_msg ([label @ '':''] @ take 8 (splitlines out) @
                  ['''', ''RIGHT/KEY1=OK  LEFT/KEY2=Back'']) w1 \<and>
      (\<forall>idle ok rest.
         es1 = idle @ ok # rest \<and>
         (\<forall>e \<in> set idle. \<not> (e PIN_RIGHT \<or> e PIN_KEY1 \<or> e PIN_LEFT \<or> e PIN_KEY2)) \<and>
         (ok PIN_RIGHT \<or> ok PIN_KEY1 \<or> ok PIN_LEFT \<or> ok PIN_KEY2) \<longrightarrow>
         run_action label fn w es =
           Returned ()
             (draw_msg ([label @ '':''] @ take 8 (splitlines out) @
                        ['''', ''RIGHT/KEY1=OK  LEFT/KEY2=Back'']) w1)
             rest)) \<and>
   (ui w \<and> fn (draw_msg [label @ ''...''] w) es = Returned r w1 es1 \<and>
      (r = None \<or> r = Some '''') \<longrightarrow>
      state_of (run_action label fn w es) =
        draw_msg [label @ '':'', ''Done.'', '''', ''RIGHT/KEY1=OK  LEFT/KEY2=Back''] w1 \<and>
      (\<forall>idle ok rest.
         es1 = idle @ ok # rest \<and>
         (\<forall>e \<in> set idle. \<not> (e PIN_RIGHT \<or> e PIN_KEY1 \<or> e PIN_LEFT \<or> e PIN_KEY2)) \<and>
         (ok PIN_RIGHT \<or> ok PIN_KEY1 \<or> ok PIN_LEFT \<or> ok PIN_KEY2) \<longrightarrow>
         run_action label fn w es =
           Returned ()
             (draw_msg [label @ '':'', ''Done.'', '''', ''RIGHT/KEY1=OK  LEFT/KEY2=Back''] w1)
             rest))"
proof -
  have leaves: "cls \<noteq> Exception \<and> fn (draw_msg [label @ ''...''] w) es = Raised cls m w' es'"
    if "run_action label fn w es = Raised cls m w' es'"
    using that by (simp add: run_action_Raised)
  have passes: "run_action label fn w es = Raised cls msg w1 es1"
    if "ui w \<and> fn (draw_msg [label @ ''...''] w) es = Raised cls msg w1 es1 \<and>
        cls \<noteq> Exception"
    using that by (simp add: run_action_Raised)
  have caught: "run_action label fn w es =
      (case modal_wait es1 of
         None \<Rightarrow> Waiting (draw_msg [label, '''', ''Error: '' @ msg, '''',
                                      ''RIGHT/KEY1=OK  LEFT/KEY2=Back''] w1)
       | Some es2 \<Rightarrow> Returned () (draw_msg [label, '''', ''Error: '' @ msg, '''',
                                      ''RIGHT/KEY1=OK  LEFT/KEY2=Back''] w1) es2)"
    if "ui w \<and> fn (draw_msg [label @ ''...''] w) es = Raised Exception msg w1 es1"
    using that by (simp add: run_action_def Let_def split: option.splits)
  have returned: "run_action label fn w es =
      (case modal_wait es1 of
         None \<Rightarrow> Waiting (draw_msg ([label @ '':''] @ take 8 (splitlines out) @
                                      ['''', ''RIGHT/KEY1=OK  LEFT/KEY2=Back'']) w1)
       | Some es2 \<Rightarrow> Returned () (draw_msg ([label @ '':''] @ take 8 (splitlines out) @
                                      ['''', ''RIGHT/KEY1=OK  LEFT/KEY2=Back'']) w1) es2)"
    if "ui w \<and> fn (draw_msg [label @ ''...''] w) es = Returned (Some out) w1 es1 \<and> out \<noteq> []"
    using that by (simp add: run_action_def Let_def split: option.splits)
  have empty: "run_action label fn w es =
      (case modal_wait es1 of
         None \<Rightarrow> Waiting (draw_msg [label @ '':'', ''Done.'', '''',
                                      ''RIGHT/KEY1=OK  LEFT/KEY2=Back''] w1)
       | Some es2 \<Rightarrow> Returned () (draw_msg [label @ '':'', ''Done.'', '''',
                                      ''RIGHT/KEY1=OK  LEFT/KEY2=Back''] w1) es2)"
    if "ui w \<and> fn (draw_msg [label @ ''...''] w) es = Returned r w1 es1 \<and>
        (r = None \<or> r = Some '''')"
    using that
    by (auto simp: run_action_def Let_def splitlines_Done split: option.splits)
  show ?thesis
    by (rule conjI [OF impI [OF leaves] conjI [OF impI [OF passes]
          conjI [OF impI [OF wait_then_return [OF caught]]
            conjI [OF impI [OF wait_then_return [OF returned]]
                       impI [OF wait_then_return [OF empty]]]]]])
qed

theorem run_action_shows_result_or_error_witness:
  "ui example_open \<and>
   run_action ''Status'' (\<lambda>w es. Raised Exception ''boom'' w es) example_open
       [press [], press [PIN_KEY1]] =
     Returned ()
       (example_open\<lparr>display :=
          [[''Status...''],
           [''Status'', '''', ''Error: boom'', '''', ''RIGHT/KEY1=OK  LEFT/KEY2=Back'']]\<rparr>)
       [] \<and>
   run_action ''Status''
       (\<lambda>w es. Returned (Some ''l1\<newline>l2\<newline>l3\<newline>l4\<newline>l5\<newline>l6\<newline>l7\<newline>l8\<newline>l9\<newline>l10'') w es)
       example_open [press [], press [PIN_KEY1]] =
     Returned ()
       (example_open\<lparr>display :=
          [[''Status...''],
           [''Status:'', ''l1'', ''l2'', ''l3'', ''l4'', ''l5'', ''l6'', ''l7'', ''l8'', '''',
            ''RIGHT/KEY1=OK  LEFT/KEY2=Back'']]\<rparr>)
       [] \<and>
   run_action ''Status'' (\<lambda>w es. Raised SystemExit ''1'' w es) example_open
       [press [], press [PIN_KEY1]] =
     Raised SystemExit ''1'' (example_open\<lparr>display := [[''Status...'']]\<rparr>)
       [press [], press [PIN_KEY1]]"
proof -
  have ui: "ui example_open" and shown: "display example_open = []"
    by (simp_all add: example_open_def on_ui_setup_def on_loaded_def init_def)
  have lines: "take 8 (splitlines ''l1\<newline>l2\<newline>l3\<newline>l4\<newline>l5\<newline>l6\<newline>l7\<newline>l8\<newline>l9\<newline>l10'') =
      [''l1'', ''l2'', ''l3'', ''l4'', ''l5'', ''l6'', ''l7'', ''l8'']"
    by code_simp
  have hist: "[press [], press [PIN_KEY1]] = [press []] @ press [PIN_KEY1] # [] \<and>
      (\<forall>e \<in> set [press []]. \<not> (e PIN_RIGHT \<or> e PIN_KEY1 \<or> e PIN_LEFT \<or> e PIN_KEY2)) \<and>
      (press [PIN_KEY1] PIN_RIGHT \<or> press [PIN_KEY1] PIN_KEY1 \<or>
       press [PIN_KEY1] PIN_LEFT \<or> press [PIN_KEY1] PIN_KEY2)"
    by simp
  have "ui example_open \<and>
      (\<lambda>w es. Raised Exception ''boom'' w es) (draw_msg [''Status'' @ ''...''] example_open)
         [press [], press [PIN_KEY1]] =
      Raised Exception ''boom'' (draw_msg [''Status...''] example_open)
        [press [], press [PIN_KEY1]]"
    using ui by simp
  with run_action_shows_result_or_error
         [where fn = "\<lambda>w es. Raised Exception ''boom'' w es" and label = "''Status''"
            and w = example_open and es = "[press [], press [PIN_KEY1]]" and msg = "''boom''"
            and ?w1.0 = "draw_msg [''Status...''] example_open"
            and ?es1.0 = "[press [], press [PIN_KEY1]]",
          THEN conjunct2, THEN conjunct2, THEN conjunct1]
  have "\<forall>idle ok rest.
         [press [], press [PIN_KEY1]] = idle @ ok # rest \<and>
         (\<forall>e \<in> set idle. \<not> (e PIN_RIGHT \<or> e PIN_KEY1 \<or> e PIN_LEFT \<or> e PIN_KEY2)) \<and>
         (ok PIN_RIGHT \<or> ok PIN_KEY1 \<or> ok PIN_LEFT \<or> ok PIN_KEY2) \<longrightarrow>
         run_action ''Status'' (\<lambda>w es. Raised Exception ''boom'' w es) example_open
             [press [], press [PIN_KEY1]] =
           Returned ()
             (draw_msg [''Status'', '''', ''Error: '' @ ''boom'', '''',
                        ''RIGHT/KEY1=OK  LEFT/KEY2=Back'']
                (draw_msg [''Status...''] example_open))
             rest"
    by (rule conjunct2 [OF mp])
  from this [rule_format, OF hist]
  have a: "run_action ''Status'' (\<lambda>w es. Raised Exception ''boom'' w es) example_open
             [press [], press [PIN_KEY1]] =
           Returned ()
             (draw_msg [''Status'', '''', ''Error: '' @ ''boom'', '''',
                        ''RIGHT/KEY1=OK  LEFT/KEY2=Back'']
                (draw_msg [''Status...''] example_open))
             []" .
  have "ui example_open \<and>
      (\<lambda>w es. Returned (Some ''l1\<newline>l2\<newline>l3\<newline>l4\<newline>l5\<newline>l6\<newline>l7\<newline>l8\<newline>l9\<newline>l10'') w es)
         (draw_msg [''Status'' @ ''...''] example_open) [press [], press [PIN_KEY1]] =
      Returned (Some ''l1\<newline>l2\<newline>l3\<newline>l4\<newline>l5\<newline>l6\<newline>l7\<newline>l8\<newline>l9\<newline>l10'')
        (draw_msg [''Status...''] example_open) [press [], press [PIN_KEY1]] \<and>
      ''l1\<newline>l2\<newline>l3\<newline>l4\<newline>l5\<newline>l6\<newline>l7\<newline>l8\<newline>l9\<newline>l10'' \<noteq> []"
    using ui by simp
  with run_action_shows_result_or_error
         [where fn = "\<lambda>w es. Returned (Some ''l1\<newline>l2\<newline>l3\<newline>l4\<newline>l5\<newline>l6\<newline>l7\<newline>l8\<newline>l9\<newline>l10'') w es"
            and label = "''Status''"
            and w = example_open and es = "[press [], press [PIN_KEY1]]"
            and out = "''l1\<newline>l2\<newline>l3\<newline>l4\<newline>l5\<newline>l6\<newline>l7\<newline>l8\<newline>l9\<newline>l10''"
            and ?w1.0 = "draw_msg [''Status...''] example_open"
            and ?es1.0 = "[press [], press [PIN_KEY1]]",
          THEN conjunct2, THEN conjunct2, THEN conjunct2, THEN conjunct1]
  have "\<forall>idle ok rest.
         [press [], press [PIN_KEY1]] = idle @ ok # rest \<and>
         (\<forall>e \<in> set idle. \<not> (e PIN_RIGHT \<or> e PIN_KEY1 \<or> e PIN_LEFT \<or> e PIN_KEY2)) \<and>
         (ok PIN_RIGHT \<or> ok PIN_KEY1 \<or> ok PIN_LEFT \<or> ok PIN_KEY2) \<longrightarrow>
         run_action ''Status''
             (\<lambda>w es. Returned (Some ''l1\<newline>l2\<newline>l3\<newline>l4\<newline>l5\<newline>l6\<newline>l7\<newline>l8\<newline>l9\<newline>l10'') w es)
             example_open [press [], press [PIN_KEY1]] =
           Returned ()
             (draw_msg ([''Status'' @ '':''] @
                 take 8 (splitlines ''l1\<newline>l2\<newline>l3\<newline>l4\<newline>l5\<newline>l6\<newline>l7\<newline>l8\<newline>l9\<newline>l10'') @
                 ['''', ''RIGHT/KEY1=OK  LEFT/KEY2=Back''])
                (draw_msg [''Status...''] example_open))
             rest"
    by (rule conjunct2 [OF mp])
  from this [rule_format, OF hist]
  have b: "run_action ''Status''
             (\<lambda>w es. Returned (Some ''l1\<newline>l2\<newline>l3\<newline>l4\<newline>l5\<newline>l6\<newline>l7\<newline>l8\<newline>l9\<newline>l10'') w es)
             example_open [press [], press [PIN_KEY1]] =
           Returned ()
             (draw_msg ([''Status'' @ '':''] @
                 take 8 (splitlines ''l1\<newline>l2\<newline>l3\<newline>l4\<newline>l5\<newline>l6\<newline>l7\<newline>l8\<newline>l9\<newline>l10'') @
                 ['''', ''RIGHT/KEY1=OK  LEFT/KEY2=Back''])
                (draw_msg [''Status...''] example_open))
             []" .
  have "ui example_open \<and>
      (\<lambda>w es. Raised SystemExit ''1'' w es) (draw_msg [''Status'' @ ''...''] example_open)
         [press [], press [PIN_KEY1]] =
      Raised SystemExit ''1'' (draw_msg [''Status...''] example_open)
        [press [], press [PIN_KEY1]] \<and>
      SystemExit \<noteq> Exception"
    using ui by simp
  from run_action_shows_result_or_error
         [where fn = "\<lambda>w es. Raised SystemExit ''1'' w es" and label = "''Status''"
            and w = example_open and es = "[press [], press [PIN_KEY1]]"
            and cls = SystemExit and msg = "''1''"
            and ?w1.0 = "draw_msg [''Status...''] example_open"
            and ?es1.0 = "[press [], press [PIN_KEY1]]",
          THEN conjunct2, THEN conjunct1, THEN mp, OF this]
  have c: "run_action ''Status'' (\<lambda>w es. Raised SystemExit ''1'' w es) example_open
             [press [], press [PIN_KEY1]] =
           Raised SystemExit ''1'' (draw_msg [''Status...''] example_open)
             [press [], press [PIN_KEY1]]" .
  from a b c ui show ?thesis
    unfolding lines by (simp add: draw_msg_def shown)
qed

text \<open>
  C6 as stated fails. A body that returns the empty string returns normally and its
  output has no lines; the result screen is not the label line, the (no) lines of the
  output and the footer, but carries the line ``Done.''. A body that raises an
  \<open>Exception\<close> with the message ``boom'' gets a screen of five lines, the third of
  which is ``Error: boom''. A body that raises \<open>SystemExit\<close> is not caught: the
  exception leaves \<open>_run_action\<close>, and the last screen is the one drawn before the
  body ran.
\<close>

theorem result_screen_is_not_output_only:
  "take 8 (splitlines '''') = [] \<and>
   run_action ''Status'' (\<lambda>w es. Returned (Some '''') w es) example_open [press [PIN_LEFT]] =
     Returned ()
       (example_open\<lparr>display :=
          [[''Status...''],
           [''Status:'', ''Done.'', '''', ''RIGHT/KEY1=OK  LEFT/KEY2=Back'']]\<rparr>)
       [] \<and>
   run_action ''Status'' (\<lambda>w es. Raised Exception ''boom'' w es) example_open
       [press [PIN_LEFT]] =
     Returned ()
       (example_open\<lparr>display :=
          [[''Status...''],
           [''Status'', '''', ''Error: boom'', '''', ''RIGHT/KEY1=OK  LEFT/KEY2=Back'']]\<rparr>)
       [] \<and>
   run_action ''Status'' (\<lambda>w es. Raised SystemExit ''1'' w es) example_open
       [press [PIN_LEFT]] =
     Raised SystemExit ''1'' (example_open\<lparr>display := [[''Status...'']]\<rparr>) [press [PIN_LEFT]]"
proof -
  have ui: "ui example_open" and shown: "display example_open = []"
    by (simp_all add: example_open_def on_ui_setup_def on_loaded_def init_def)
  have no_lines: "take 8 (splitlines '''') = []"
    by code_simp
  show ?thesis
    using ui no_lines
    by (simp add: run_action_def Let_def splitlines_Done draw_msg_def shown)
qed

section \<open>Properties of the input debouncer\<close>

text \<open>What the three outcomes of \<open>_btn\<close> say about the pin.\<close>

lemma btn_down: "btn s = Inr True \<longleftrightarrow> s = (LOW, None)"
  by (cases s) (auto simp add: btn_def split: option.splits)

lemma btn_passes: "btn s = Inl exc \<longleftrightarrow> snd s = Some exc \<and> fst exc \<noteq> Exception"
  by (cases s) (auto simp add: btn_def split: option.splits)

lemma btn_not_down:
  "btn s = Inr False \<longleftrightarrow> s = (HIGH, None) \<or> (\<exists>msg. snd s = Some (Exception, msg))"
proof (cases s)
  case (Pair level failure)
  show ?thesis
  proof (cases failure)
    case None
    then show ?thesis
      using Pair by (cases level) (simp_all add: btn_def)
  next
    case (Some exc)
    then show ?thesis
      using Pair by (cases exc) (auto simp add: btn_def)
  qed
qed

lemma wait_release_Some:
  "wait_release sig t = Some (r, t') \<Longrightarrow>
     t \<le> t' \<and> t' < length sig \<and> btn (sig ! t') \<noteq> Inr True \<and>
     (\<forall>k. t \<le> k \<and> k < t' \<longrightarrow> btn (sig ! k) = Inr True) \<and>
     r = (case btn (sig ! t') of Inl exc \<Rightarrow> Inl exc | Inr b \<Rightarrow> Inr True)"
proof (induction sig t rule: wait_release.induct)
  case (1 sig t)
  show ?case
  proof (cases "length sig \<le> t")
    case True
    then show ?thesis
      using "1.prems" by (simp add: wait_release.simps [of sig t])
  next
    case in_range: False
    show ?thesis
    proof (cases "btn (sig ! t) = Inr True")
      case True
      then have "wait_release sig (Suc t) = Some (r, t')"
        using "1.prems" in_range by (simp add: wait_release.simps [of sig t])
      then have ih: "Suc t \<le> t'" "t' < length sig" "btn (sig ! t') \<noteq> Inr True"
          "\<forall>k. Suc t \<le> k \<and> k < t' \<longrightarrow> btn (sig ! k) = Inr True"
          "r = (case btn (sig ! t') of Inl exc \<Rightarrow> Inl exc | Inr b \<Rightarrow> Inr True)"
        using "1.IH" [OF in_range True] by auto
      have "btn (sig ! k) = Inr True" if "t \<le> k" "k < t'" for k
      proof (cases "k = t")
        case True
        then show ?thesis using \<open>btn (sig ! t) = Inr True\<close> by simp
      next
        case False
        then show ?thesis using that ih(4) by auto
      qed
      then show ?thesis
        using ih by auto
    next
      case False
      then have "t' = t \<and> r = (case btn (sig ! t) of Inl exc \<Rightarrow> Inl exc | Inr b \<Rightarrow> Inr True)"
        using "1.prems" in_range
        by (auto simp add: wait_release.simps [of sig t] split: sum.splits)
      then show ?thesis
        using False in_range by auto
    qed
  qed
qed

lemma wait_release_returns:
  "t \<le> k \<Longrightarrow> k < length sig \<Longrightarrow> btn (sig ! k) \<noteq> Inr True \<Longrightarrow>
     \<exists>r t'. wait_release sig t = Some (r, t')"
proof (induction sig t rule: wait_release.induct)
  case (1 sig t)
  have in_range: "\<not> length sig \<le> t"
    using "1.prems" by simp
  show ?case
  proof (cases "btn (sig ! t) = Inr True")
    case True
    then have "t \<noteq> k"
      using "1.prems" by auto
    then have "Suc t \<le> k"
      using "1.prems" by simp
    then have "\<exists>r t'. wait_release sig (Suc t) = Some (r, t')"
      using "1.IH" [OF in_range True] "1.prems" by simp
    then show ?thesis
      using True in_range by (simp add: wait_release.simps [of sig t])
  next
    case False
    then show ?thesis
      using in_range by (simp add: wait_release.simps [of sig t] split: sum.splits)
  qed
qed

lemma edge_True:
  assumes "edge sig t = Some (Inr True, t')"
  shows "t < length sig \<and> btn (sig ! t) = Inr True \<and> t + DEBOUNCE_TICKS \<le> t' \<and>
         t' < length sig \<and> btn (sig ! t') = Inr False \<and>
         (\<forall>k. t + DEBOUNCE_TICKS \<le> k \<and> k < t' \<longrightarrow> btn (sig ! k) = Inr True)"
proof -
  from assms have a: "t < length sig" "btn (sig ! t) = Inr True"
      "wait_release sig (t + DEBOUNCE_TICKS) = Some (Inr True, t')"
    by (auto simp: edge_def split: if_splits sum.splits)
  from wait_release_Some [OF a(3)]
  have b: "t + DEBOUNCE_TICKS \<le> t'" "t' < length sig" "btn (sig ! t') \<noteq> Inr True"
      "\<forall>k. t + DEBOUNCE_TICKS \<le> k \<and> k < t' \<longrightarrow> btn (sig ! k) = Inr True"
      "Inr True = (case btn (sig ! t') of Inl exc \<Rightarrow> Inl exc | Inr b \<Rightarrow> Inr True)"
    by auto
  from b(3,5) have "btn (sig ! t') = Inr False"
    by (cases "btn (sig ! t')") auto
  with a b show ?thesis
    by simp
qed

lemma edge_Raised:
  assumes "edge sig t = Some (Inl exc, t')"
  shows "t' < length sig \<and> btn (sig ! t') = Inl exc"
proof (cases "btn (sig ! t)")
  case (Inl e)
  then show ?thesis
    using assms by (auto simp: edge_def split: if_splits)
next
  case (Inr b)
  with assms have a: "wait_release sig (t + DEBOUNCE_TICKS) = Some (Inl exc, t')"
    by (auto simp: edge_def split: if_splits)
  from wait_release_Some [OF a]
  have "t' < length sig"
    and "Inl exc = (case btn (sig ! t') of Inl exc \<Rightarrow> Inl exc | Inr b \<Rightarrow> Inr True)"
    by auto
  then show ?thesis
    by (cases "btn (sig ! t')") auto
qed

text \<open>
  C9, as the code has it. \<open>_btn\<close> turns a read that fails with an instance of
  \<open>Exception\<close> into ``not pressed''; an exception of another class is not caught. So
  the only exception that can leave \<open>_edge\<close> is one of a class other than
  \<open>Exception\<close> that a read of the pin raised, and when every failure of the
  primitive is an instance of \<open>Exception\<close>, \<open>_edge\<close> never raises. A first read that
  fails in this way, or that finds the button up, makes \<open>_edge\<close> return false at once.
  A first read that finds the button down makes it return true, at the first read from
  the end of the debounce sleep on that does not find the button down, provided such
  a read comes (and unless that read raises past \<open>_btn\<close>). Two calls that return true
  are separated by a read that did not find the button down: the pin was up, or the
  read failed. When the read on which the first of them returned did not fail, the
  button was up between the two: they report two presses, however often the pin is
  polled. (A read that fails while the button is held ends the call, and the next call
  reports the same press again; a press that no call reads is not reported at all.)
\<close>

theorem edge_reports_a_press_at_most_once:
  "(edge sig t = Some (Inl exc, t') \<longrightarrow>
      t' < length sig \<and> snd (sig ! t') = Some exc \<and> fst exc \<noteq> Exception) \<and>
   ((\<forall>k < length sig. \<forall>e. snd (sig ! k) = Some e \<longrightarrow> fst e = Exception) \<longrightarrow>
      (\<forall>e r. edge sig t \<noteq> Some (Inl e, r))) \<and>
   (t < length sig \<and> snd (sig ! t) = Some (Exception, msg) \<longrightarrow>
      edge sig t = Some (Inr False, t)) \<and>
   (t < length sig \<and> sig ! t = (HIGH, None) \<longrightarrow> edge sig t = Some (Inr False, t)) \<and>
   (t < length sig \<and> sig ! t = (LOW, None) \<and>
      (\<exists>k. t + DEBOUNCE_TICKS \<le> k \<and> k < length sig \<and> sig ! k \<noteq> (LOW, None)) \<longrightarrow>
      (\<exists>r v. edge sig t = Some (r, v) \<and> t + DEBOUNCE_TICKS \<le> v \<and> sig ! v \<noteq> (LOW, None) \<and>
             (\<forall>k. t + DEBOUNCE_TICKS \<le> k \<and> k < v \<longrightarrow> sig ! k = (LOW, None)) \<and>
             r = (case btn (sig ! v) of Inl e \<Rightarrow> Inl e | Inr b \<Rightarrow> Inr True))) \<and>
   (edge sig t = Some (Inr True, t') \<and> t' \<le> u \<and> edge sig u = Some (Inr True, u') \<longrightarrow>
      (\<exists>k. t < k \<and> k < u \<and>
           (sig ! k = (HIGH, None) \<or> (\<exists>m. snd (sig ! k) = Some (Exception, m))))) \<and>
   (edge sig t = Some (Inr True, t') \<and> t' \<le> u \<and> edge sig u = Some (Inr True, u') \<and>
      snd (sig ! t') = None \<longrightarrow>
      (\<exists>k. t < k \<and> k < u \<and> fst (sig ! k) = HIGH))"
proof -
  have passes: "t' < length sig \<and> snd (sig ! t') = Some exc \<and> fst exc \<noteq> Exception"
    if "edge sig t = Some (Inl exc, t')"
    using edge_Raised [OF that] by (simp add: btn_passes)
  have never: "\<forall>e r. edge sig t \<noteq> Some (Inl e, r)"
    if caught: "\<forall>k < length sig. \<forall>e. snd (sig ! k) = Some e \<longrightarrow> fst e = Exception"
  proof (intro allI notI)
    fix e r
    assume "edge sig t = Some (Inl e, r)"
    from edge_Raised [OF this] have "r < length sig" "snd (sig ! r) = Some e" "fst e \<noteq> Exception"
      by (simp_all add: btn_passes)
    with caught show False
      by blast
  qed
  have failing: "edge sig t = Some (Inr False, t)"
    if "t < length sig \<and> snd (sig ! t) = Some (Exception, msg)"
  proof -
    from that have "btn (sig ! t) = Inr False"
      unfolding btn_not_down by blast
    with that show ?thesis
      by (simp add: edge_def)
  qed
  have up: "edge sig t = Some (Inr False, t)" if "t < length sig \<and> sig ! t = (HIGH, None)"
  proof -
    from that have "btn (sig ! t) = Inr False"
      unfolding btn_not_down by blast
    with that show ?thesis
      by (simp add: edge_def)
  qed
  have down: "\<exists>r v. edge sig t = Some (r, v) \<and> t + DEBOUNCE_TICKS \<le> v \<and> sig ! v \<noteq> (LOW, None) \<and>
            (\<forall>k. t + DEBOUNCE_TICKS \<le> k \<and> k < v \<longrightarrow> sig ! k = (LOW, None)) \<and>
            r = (case btn (sig ! v) of Inl e \<Rightarrow> Inl e | Inr b \<Rightarrow> Inr True)"
    if "t < length sig \<and> sig ! t = (LOW, None) \<and>
        (\<exists>k. t + DEBOUNCE_TICKS \<le> k \<and> k < length sig \<and> sig ! k \<noteq> (LOW, None))"
  proof -
    from that obtain k where "t + DEBOUNCE_TICKS \<le> k" "k < length sig"
        "btn (sig ! k) \<noteq> Inr True"
      unfolding btn_down by blast
    then obtain r v where w: "wait_release sig (t + DEBOUNCE_TICKS) = Some (r, v)"
      using wait_release_returns by blast
    from that have "btn (sig ! t) = Inr True"
      by (simp add: btn_down)
    with that w have "edge sig t = Some (r, v)"
      by (simp add: edge_def)
    with wait_release_Some [OF w] show ?thesis
      unfolding btn_down by blast
  qed
  have apart: "t < t' \<and> t' < u \<and> btn (sig ! t') = Inr False"
    if "edge sig t = Some (Inr True, t')" "t' \<le> u" "edge sig u = Some (Inr True, u')"
  proof -
    from that(1) have first: "t + DEBOUNCE_TICKS \<le> t'" "btn (sig ! t') = Inr False"
      using edge_True [of sig t t'] by auto
    from that(3) have "btn (sig ! u) = Inr True"
      using edge_True [of sig u u'] by auto
    with first(2) have "t' \<noteq> u"
      by auto
    with that(2) first show ?thesis
      by (simp add: DEBOUNCE_TICKS_def)
  qed
  have once: "\<exists>k. t < k \<and> k < u \<and>
           (sig ! k = (HIGH, None) \<or> (\<exists>m. snd (sig ! k) = Some (Exception, m)))"
    if "edge sig t = Some (Inr True, t') \<and> t' \<le> u \<and> edge sig u = Some (Inr True, u')"
  proof -
    from that have "t < t' \<and> t' < u \<and> btn (sig ! t') = Inr False"
      using apart by blast
    then show ?thesis
      unfolding btn_not_down by blast
  qed
  have released: "\<exists>k. t < k \<and> k < u \<and> fst (sig ! k) = HIGH"
    if "edge sig t = Some (Inr True, t') \<and> t' \<le> u \<and> edge sig u = Some (Inr True, u') \<and>
        snd (sig ! t') = None"
  proof -
    from that have "t < t' \<and> t' < u \<and> btn (sig ! t') = Inr False"
      using apart by blast
    moreover from this that have "fst (sig ! t') = HIGH"
      unfolding btn_not_down by auto
    ultimately show ?thesis
      by blast
  qed
  show ?thesis
    by (rule conjI [OF impI [OF passes] conjI [OF impI [OF never] conjI [OF impI [OF failing]
          conjI [OF impI [OF up] conjI [OF impI [OF down]
            conjI [OF impI [OF once] impI [OF released]]]]]]])
qed

theorem edge_reports_a_press_at_most_once_witness:
  "edge example_presses 0 = Some (Inr False, 0) \<and>
   edge [(LOW, Some (Exception, ''read failed'')), (LOW, None)] 0 = Some (Inr False, 0) \<and>
   edge example_presses 5 = Some (Inr True, 23) \<and>
   edge example_presses 35 = Some (Inr True, 53) \<and>
   (\<exists>k. 5 < k \<and> k < 35 \<and> fst (example_presses ! k) = HIGH) \<and>
   (\<forall>e r. edge example_presses 5 \<noteq> Some (Inl e, r)) \<and>
   press_cycles False example_presses = 2 \<and>
   polls example_presses 0 [0, 5, 0, 12] = Some (Inr [False, True, False, True])"
proof -
  have up: "0 < length example_presses \<and> example_presses ! 0 = (HIGH, None)"
    by code_simp
  have failing: "0 < length [(LOW, Some (Exception, ''read failed'')), (LOW, None)] \<and>
      snd ([(LOW, Some (Exception, ''read failed'')), (LOW, None)] ! 0) =
        Some (Exception, ''read failed'')"
    by simp
  have down: "5 < length example_presses \<and> example_presses ! 5 = (LOW, None) \<and>
      5 + DEBOUNCE_TICKS \<le> 23 \<and> 23 < length example_presses \<and>
      example_presses ! 23 \<noteq> (LOW, None)"
    by code_simp
  have first: "edge example_presses 5 = Some (Inr True, 23)"
    and second: "edge example_presses 35 = Some (Inr True, 53)"
    and settled: "snd (example_presses ! 23) = None"
    by code_simp+
  have "\<forall>s \<in> set example_presses. snd s = None"
    by (auto simp add: example_presses_def)
  then have sound: "\<forall>k < length example_presses. \<forall>e.
      snd (example_presses ! k) = Some e \<longrightarrow> fst e = Exception"
    by simp
  have cycles: "press_cycles False example_presses = 2"
    by code_simp
  have run: "polls example_presses 0 [0, 5, 0, 12] = Some (Inr [False, True, False, True])"
    by code_simp
  note inst = edge_reports_a_press_at_most_once
      [where sig = example_presses and t = 0,
       THEN conjunct2, THEN conjunct2, THEN conjunct2, THEN conjunct1, THEN mp, OF up]
    edge_reports_a_press_at_most_once
      [where sig = example_presses and t = 5,
       THEN conjunct2, THEN conjunct2, THEN conjunct2, THEN conjunct2, THEN conjunct1]
    edge_reports_a_press_at_most_once
      [where sig = example_presses and t = 5 and t' = 23 and u = 35 and u' = 53,
       THEN conjunct2, THEN conjunct2, THEN conjunct2, THEN conjunct2, THEN conjunct2,
       THEN conjunct2, THEN mp]
    edge_reports_a_press_at_most_once
      [where sig = "[(LOW, Some (Exception, ''read failed'')), (LOW, None)]" and t = 0
         and msg = "''read failed''",
       THEN conjunct2, THEN conjunct2, THEN conjunct1, THEN mp, OF failing]
    edge_reports_a_press_at_most_once
      [where sig = example_presses and t = 5,
       THEN conjunct2, THEN conjunct1, THEN mp, OF sound]
  have "\<exists>r v. edge example_presses 5 = Some (r, v)"
    using inst(2) down by blast
  moreover have "\<exists>k. 5 < k \<and> k < 35 \<and> fst (example_presses ! k) = HIGH"
    using inst(3) first second settled by simp
  ultimately show ?thesis
    using inst(1) inst(4) inst(5) first second cycles run by simp
qed

text \<open>
  C9 as stated fails: ``exactly once, regardless of poll frequency'' does not hold,
  either way. The button goes down and up once between two polls that come half a
  second apart; both polls return false, and the press is never reported. And the
  button is held down once while one read of the pin fails: the call that was
  waiting for the release returns true at the failed read, and the next call, a tick
  later, finds the button still down and returns true as well.
\<close>

theorem press_is_missed_or_reported_twice:
  "press_cycles False example_short_press = 1 \<and>
   polls example_short_press 0 [0, 50] = Some (Inr [False, False]) \<and>
   press_cycles False example_failed_read = 1 \<and>
   edge example_failed_read 5 = Some (Inr True, 25) \<and>
   edge example_failed_read 26 = Some (Inr True, 43) \<and>
   polls example_failed_read 0 [5, 1] = Some (Inr [True, True])"
  by code_simp

end
